theory Spec2Isabelle
  imports Main "HOL-Library.Word"
begin

unbundle bit_operations_syntax

section \<open>Bytes, host integers and the C library\<close>

text \<open>
  The model follows \<^verbatim>\<open>src/auth.c\<close>. A message is a list of bytes, a pointer into
  it an offset, \<^verbatim>\<open>unsigned int\<close> and \<^verbatim>\<open>uint32_t\<close> are 32-bit words,
  \<^verbatim>\<open>uint64_t\<close> is a 64-bit word. The host is little-endian, the branch of the
  source that defines \<^verbatim>\<open>htonll\<close> and \<^verbatim>\<open>ntohll\<close> itself.
\<close>

type_synonym byte = "8 word"

text \<open>\<^verbatim>\<open>memcpy(p, &x, sizeof(x))\<close> and \<^verbatim>\<open>memcpy(&x, p, sizeof(x))\<close> on a little-endian
  host: the least significant byte comes first in memory.\<close>

definition store32 :: "32 word \<Rightarrow> byte list" where
  "store32 w = [ucast w, ucast (drop_bit 8 w), ucast (drop_bit 16 w), ucast (drop_bit 24 w)]"

definition load32 :: "byte list \<Rightarrow> 32 word" where
  "load32 bs = ucast (bs ! 0) OR push_bit 8 (ucast (bs ! 1)) OR push_bit 16 (ucast (bs ! 2))
     OR push_bit 24 (ucast (bs ! 3))"

definition store64 :: "64 word \<Rightarrow> byte list" where
  "store64 w = [ucast w, ucast (drop_bit 8 w), ucast (drop_bit 16 w), ucast (drop_bit 24 w),
     ucast (drop_bit 32 w), ucast (drop_bit 40 w), ucast (drop_bit 48 w), ucast (drop_bit 56 w)]"

definition load64 :: "byte list \<Rightarrow> 64 word" where
  "load64 bs = ucast (bs ! 0) OR push_bit 8 (ucast (bs ! 1)) OR push_bit 16 (ucast (bs ! 2))
     OR push_bit 24 (ucast (bs ! 3)) OR push_bit 32 (ucast (bs ! 4)) OR push_bit 40 (ucast (bs ! 5))
     OR push_bit 48 (ucast (bs ! 6)) OR push_bit 56 (ucast (bs ! 7))"

text \<open>\<^verbatim>\<open>htonl\<close> and \<^verbatim>\<open>ntohl\<close> of the C library on a little-endian host: the four
  bytes in reverse order.\<close>

definition htonl :: "32 word \<Rightarrow> 32 word" where
  "htonl x = load32 (rev (store32 x))"

definition ntohl :: "32 word \<Rightarrow> 32 word" where
  "ntohl x = load32 (rev (store32 x))"

text \<open>The source's own \<^verbatim>\<open>htonll\<close> and \<^verbatim>\<open>ntohll\<close>:
  \<^verbatim>\<open>(uint64_t)htonl((uint32_t)(x >> 32)) | (int64_t)htonl((uint32_t)(x & 0xffffffff)) << 32\<close>.
  The shift of the \<^verbatim>\<open>int64_t\<close> is taken as the two's-complement shift every
  supported compiler performs.\<close>

definition htonll :: "64 word \<Rightarrow> 64 word" where
  "htonll x = ucast (htonl (ucast (drop_bit 32 x)))
     OR push_bit 32 (ucast (htonl (ucast (x AND 0xffffffff))))"

definition ntohll :: "64 word \<Rightarrow> 64 word" where
  "ntohll x = ucast (ntohl (ucast (drop_bit 32 x)))
     OR push_bit 32 (ucast (ntohl (ucast (x AND 0xffffffff))))"

text \<open>\<^verbatim>\<open>memcmp(a, b, n)\<close>: zero exactly when the first \<open>n\<close> bytes agree. The
  source only tests the result against zero.\<close>

definition memcmp :: "byte list \<Rightarrow> byte list \<Rightarrow> nat \<Rightarrow> int" where
  "memcmp a b n = (if take n a = take n b then 0 else 1)"

text \<open>\<^verbatim>\<open>memcpy(m + d, src, length src)\<close> and \<^verbatim>\<open>memset(m + d, c, n)\<close> inside a
  buffer \<open>m\<close>; the callers establish that the range lies inside \<open>m\<close>.\<close>

definition memcpy :: "byte list \<Rightarrow> nat \<Rightarrow> byte list \<Rightarrow> byte list" where
  "memcpy m d src = take d m @ src @ drop (d + length src) m"

definition memset :: "byte list \<Rightarrow> nat \<Rightarrow> byte \<Rightarrow> nat \<Rightarrow> byte list" where
  "memset m d c n = memcpy m d (replicate n c)"

subsection \<open>Reading and printing the counter file\<close>

definition isspace :: "char \<Rightarrow> bool" where
  "isspace c = (c \<in> set [CHR '' '', CHR 0x09, CHR 0x0A, CHR 0x0B, CHR 0x0C, CHR 0x0D])"

definition digit_of :: "char \<Rightarrow> nat option" where
  "digit_of c = (let n = (of_char c :: nat) in
     if 48 \<le> n \<and> n \<le> 57 then Some (n - 48)
     else if 97 \<le> n \<and> n \<le> 122 then Some (n - 87)
     else if 65 \<le> n \<and> n \<le> 90 then Some (n - 55)
     else None)"

text \<open>The value of the longest run of digits of base \<open>b\<close>, as an unbounded integer.\<close>

fun strtoull_digits :: "nat \<Rightarrow> int \<Rightarrow> string \<Rightarrow> int" where
  "strtoull_digits b acc [] = acc"
| "strtoull_digits b acc (c # cs) =
     (case digit_of c of
        None \<Rightarrow> acc
      | Some d \<Rightarrow> if d < b then strtoull_digits b (acc * int b + int d) cs else acc)"

definition is_xdigit :: "char \<Rightarrow> bool" where
  "is_xdigit c = (case digit_of c of None \<Rightarrow> False | Some d \<Rightarrow> d < 16)"

text \<open>The base that \<^verbatim>\<open>strtoull(s, &ep, 0)\<close> reads from the prefix, and the digits
  after the prefix.\<close>

fun strtoull_base :: "string \<Rightarrow> nat \<times> string" where
  "strtoull_base (c0 # cx # h # r) =
     (if c0 = CHR ''0'' \<and> (cx = CHR ''x'' \<or> cx = CHR ''X'') \<and> is_xdigit h then (16, h # r)
      else if c0 = CHR ''0'' then (8, c0 # cx # h # r)
      else (10, c0 # cx # h # r))"
| "strtoull_base s = (case s of [] \<Rightarrow> (10, s) | c0 # r \<Rightarrow> if c0 = CHR ''0'' then (8, s) else (10, s))"

fun strtoull_sign :: "string \<Rightarrow> bool \<times> string" where
  "strtoull_sign [] = (False, [])"
| "strtoull_sign (c # r) =
     (if c = CHR ''-'' then (True, r) else if c = CHR ''+'' then (False, r) else (False, c # r))"

text \<open>\<^verbatim>\<open>strtoull(line, &ep, 0)\<close> of the C library: leading white space, an
  optional sign, the base from the prefix, the longest run of digits; no digits give 0, a
  value that does not fit gives \<^verbatim>\<open>ULLONG_MAX\<close>, a minus sign negates in the
  unsigned type.\<close>

definition strtoull :: "string \<Rightarrow> 64 word" where
  "strtoull s =
     (let (neg, s2) = strtoull_sign (dropWhile isspace s);
          (b, s3) = strtoull_base s2;
          n = strtoull_digits b 0 s3
      in if 18446744073709551616 \<le> n then - 1
         else if neg then - (word_of_int n) else word_of_int n)"

text \<open>Modelled from the spec: \<^verbatim>\<open>get_line\<close> is declared in \<^verbatim>\<open>common.h\<close> and its body
  is not under \<^verbatim>\<open>src/\<close>. It reads the current textual representation: the first
  line without its newline, and \<^verbatim>\<open>NULL\<close> when the content is empty.\<close>

definition get_line :: "string \<Rightarrow> string option" where
  "get_line content = (if content = [] then None else Some (takeWhile (\<lambda>c. c \<noteq> CHR 0x0A) content))"

text \<open>The decimal digits of \<^verbatim>\<open>printf\<close>'s \<^verbatim>\<open>%u\<close> conversions, most significant
  first.\<close>

function decimal :: "int \<Rightarrow> string" where
  "decimal n = (if n < 10 then [char_of (48 + n)] else decimal (n div 10) @ [char_of (48 + n mod 10)])"
  by pat_completeness auto
termination
  by (relation "measure nat") auto

declare decimal.simps [simp del]

text \<open>\<^verbatim>\<open>"0x%016" PRIu64 "\n"\<close>: the two characters \<^verbatim>\<open>0x\<close>, the value in decimal
  padded with zeros to at least 16 digits, a newline.\<close>

definition rdm_format :: "64 word \<Rightarrow> string" where
  "rdm_format rdm =
     (let ds = decimal (uint rdm)
      in ''0x'' @ replicate (16 - length ds) (CHR ''0'') @ ds @ [CHR 0x0A])"

section \<open>The replay counter\<close>

text \<open>The process-wide \<^verbatim>\<open>last_rdm\<close> and \<^verbatim>\<open>last_rdm_set\<close>, and the content of
  \<^verbatim>\<open>RDM_MONOFILE\<close> (\<open>None\<close> while the file does not exist).\<close>

record rdm_state =
  last_rdm :: "64 word"
  last_rdm_set :: bool
  rdm_file :: "string option"

text \<open>What the file system does to one call: each flag makes the named step fail.
  \<open>fopen_r_fails\<close> is a failure of \<^verbatim>\<open>fopen(RDM_MONOFILE, "r+")\<close> with an
  \<^verbatim>\<open>errno\<close> other than \<^verbatim>\<open>ENOENT\<close>; a missing file gives \<^verbatim>\<open>ENOENT\<close>.\<close>

record rdm_io =
  fopen_r_fails :: bool
  fopen_w_fails :: bool
  fseek_fails :: bool
  ftruncate_fails :: bool
  fprintf_fails :: bool

text \<open>The tail of \<^verbatim>\<open>get_next_rdm_monotonic\<close> from \<^verbatim>\<open>rdm++\<close> on, with the file
  open and \<open>content\<close> in it. A failed \<^verbatim>\<open>fseek\<close> or \<^verbatim>\<open>ftruncate\<close> leaves the
  content, a failed \<^verbatim>\<open>fprintf\<close> leaves the truncated file; a text that is not 19
  characters long is written and then treated as a failure.\<close>

definition rdm_fallback :: "rdm_state \<Rightarrow> 64 word \<Rightarrow> 64 word \<times> rdm_state" where
  "rdm_fallback st rdm =
     (if \<not> last_rdm_set st then (rdm, st\<lparr>last_rdm := rdm, last_rdm_set := True\<rparr>)
      else (last_rdm st + 1, st\<lparr>last_rdm := last_rdm st + 1\<rparr>))"

definition rdm_update :: "rdm_io \<Rightarrow> rdm_state \<Rightarrow> string \<Rightarrow> 64 word \<Rightarrow> 64 word \<times> rdm_state" where
  "rdm_update io st content rdm0 =
     (let rdm = rdm0 + 1 in
      if fseek_fails io then rdm_fallback (st\<lparr>rdm_file := Some content\<rparr>) rdm
      else if ftruncate_fails io then rdm_fallback (st\<lparr>rdm_file := Some content\<rparr>) rdm
      else if fprintf_fails io then rdm_fallback (st\<lparr>rdm_file := Some []\<rparr>) rdm
      else if length (rdm_format rdm) \<noteq> 19
        then rdm_fallback (st\<lparr>rdm_file := Some (rdm_format rdm)\<rparr>) rdm
      else (rdm, st\<lparr>rdm_file := Some (rdm_format rdm)\<rparr>))"

definition get_next_rdm_monotonic :: "rdm_io \<Rightarrow> rdm_state \<Rightarrow> 64 word \<times> rdm_state" where
  "get_next_rdm_monotonic io st =
     (if fopen_r_fails io then (last_rdm st + 1, st\<lparr>last_rdm := last_rdm st + 1\<rparr>)
      else case rdm_file st of
        None \<Rightarrow>
          if fopen_w_fails io then (last_rdm st + 1, st\<lparr>last_rdm := last_rdm st + 1\<rparr>)
          else rdm_update io st [] 0
      | Some content \<Rightarrow>
          rdm_update io st content
            (case get_line content of None \<Rightarrow> 0 | Some line \<Rightarrow> strtoull line))"

definition io_ok :: rdm_io where
  "io_ok = \<lparr>fopen_r_fails = False, fopen_w_fails = False, fseek_fails = False,
     ftruncate_fails = False, fprintf_fails = False\<rparr>"

text \<open>A process starts with the zero-initialised statics.\<close>

definition rdm_start :: "string option \<Rightarrow> rdm_state" where
  "rdm_start f = \<lparr>last_rdm = 0, last_rdm_set = False, rdm_file = f\<rparr>"


section \<open>Tokens, policies and sessions\<close>

text \<open>Modelled from the spec: \<^verbatim>\<open>struct token\<close>, \<^verbatim>\<open>struct auth\<close> and
  \<^verbatim>\<open>struct authstate\<close> are declared in \<^verbatim>\<open>auth.h\<close>, which is not under
  \<^verbatim>\<open>src/\<close>; the fields are those of the spec's section 3, under the names
  \<^verbatim>\<open>auth.c\<close> reads and writes them by. A byte
  buffer and its length field are one list. A \<^verbatim>\<open>struct token *\<close> is an address, and
  the token structures live in a store from addresses to tokens, since the validator
  compares tokens by address and writes through \<^verbatim>\<open>state->reconf\<close>.\<close>

type_synonym addr = nat

record token =
  secretid :: "32 word"
  realm :: "byte list"
  key :: "byte list"
  expire :: int

type_synonym heap = "addr \<Rightarrow> token"

record auth =
  options :: "32 word"
  protocol :: byte
  algorithm :: byte
  rdm :: byte
  tokens :: "addr list"

record authstate =
  replay :: "64 word"
  token :: "addr option"
  reconf :: "addr option"

text \<open>Modelled from the spec: the constants of \<^verbatim>\<open>auth.h\<close>, with the wire values of
  the spec's section 6; \<^verbatim>\<open>DHCPCD_AUTH_SEND\<close> is one bit of the options.\<close>

definition AUTH_PROTO_TOKEN :: byte where "AUTH_PROTO_TOKEN = 0"
definition AUTH_PROTO_DELAYED :: byte where "AUTH_PROTO_DELAYED = 1"
definition AUTH_PROTO_RECONFKEY :: byte where "AUTH_PROTO_RECONFKEY = 2"
definition AUTH_PROTO_DELAYEDREALM :: byte where "AUTH_PROTO_DELAYEDREALM = 3"
definition AUTH_ALG_HMAC_MD5 :: byte where "AUTH_ALG_HMAC_MD5 = 1"
definition AUTH_RDM_MONOTONIC :: byte where "AUTH_RDM_MONOTONIC = 0"
definition DHCPCD_AUTH_SEND :: "32 word" where "DHCPCD_AUTH_SEND = 1"

definition HMAC_LENGTH :: nat where "HMAC_LENGTH = 16"

text \<open>Modelled from the spec: the message types and \<^verbatim>\<open>struct dhcp_message\<close> are
  declared in \<^verbatim>\<open>dhcp.h\<close> and \<^verbatim>\<open>dhcp6.h\<close>, which are not under \<^verbatim>\<open>src/\<close>. The
  spec names the message types and the two header fields after the RFCs; the values are
  those of RFC 2132 and RFC 3315, and the offsets of \<^verbatim>\<open>hwopcount\<close> and \<^verbatim>\<open>giaddr\<close>
  those of the BOOTP header of RFC 2131 (op, hwtype, hwlen, hwopcount, xid, secs, flags,
  ciaddr, yiaddr, siaddr, giaddr).\<close>

definition DHCP_DISCOVER :: int where "DHCP_DISCOVER = 1"
definition DHCP_ACK :: int where "DHCP_ACK = 5"
definition DHCP_INFORM :: int where "DHCP_INFORM = 8"
definition DHCP6_SOLICIT :: int where "DHCP6_SOLICIT = 1"
definition DHCP6_REPLY :: int where "DHCP6_REPLY = 7"
definition DHCP6_INFORMATION_REQ :: int where "DHCP6_INFORMATION_REQ = 11"
definition off_hwopcount :: nat where "off_hwopcount = 3"
definition off_giaddr :: nat where "off_giaddr = 24"

text \<open>What the validator and the encoder take from outside: the keyed digest of
  \<^verbatim>\<open>crypt/crypt.h\<close> (message, then key), the value \<^verbatim>\<open>time(&now)\<close> returns (-1 when
  it fails), and the results of the three \<^verbatim>\<open>malloc\<close> calls.\<close>

record sys =
  hmac_md5 :: "byte list \<Rightarrow> byte list \<Rightarrow> byte list"
  time_now :: int
  malloc_reconf :: "addr option"
  malloc_key :: bool
  malloc_mm :: bool

text \<open>Every \<^verbatim>\<open>errno\<close> the two functions set. \<open>MallocFailed\<close> and \<open>TimeFailed\<close>
  are the returns that leave \<^verbatim>\<open>errno\<close> to the failed call; \<open>Fault\<close> is an access
  outside an object, which C leaves undefined.\<close>

datatype error = EINVAL | ERANGE | EPERM | ENOTSUP | ESRCH | EFAULT | ENOSYS | ENOENT | ENOBUFS
  | MallocFailed | TimeFailed | Fault

text \<open>The buffer \<^verbatim>\<open>hmac[HMAC_LENGTH]\<close> after \<^verbatim>\<open>hmac_md5\<close> has written the digest
  into it.\<close>

definition hmac_buf :: "byte list \<Rightarrow> byte list" where
  "hmac_buf digest = take HMAC_LENGTH (digest @ replicate HMAC_LENGTH 0)"

section \<open>The validator\<close>

type_synonym vresult = "(error + addr) \<times> authstate \<times> heap"

text \<open>The label \<^verbatim>\<open>finish\<close>.\<close>

definition finish :: "heap \<Rightarrow> authstate \<Rightarrow> 64 word \<Rightarrow> addr \<Rightarrow> vresult" where
  "finish heap state rp t = (Inr t, state\<lparr>replay := rp, token := Some t\<rparr>, heap)"

text \<open>The label \<^verbatim>\<open>gottoken\<close>: the pin check, then the comparison of the key or of
  the digest. \<open>d\<close> is the offset of the rest of the option in \<open>m\<close> and \<open>dlen\<close> its
  length.\<close>

definition gottoken ::
  "sys \<Rightarrow> heap \<Rightarrow> authstate \<Rightarrow> byte list \<Rightarrow> int \<Rightarrow> byte \<Rightarrow> byte \<Rightarrow> 64 word \<Rightarrow> addr \<Rightarrow> nat \<Rightarrow> nat
     \<Rightarrow> vresult" where
  "gottoken sys heap state m mp proto alg rp t d dlen =
     (if token state \<noteq> None \<and> token state \<noteq> Some t then (Inl EPERM, state, heap)
      else if proto = AUTH_PROTO_TOKEN then
        (if dlen \<noteq> length (key (heap t)) \<or> memcmp (drop d m) (key (heap t)) dlen \<noteq> 0
         then (Inl EPERM, state, heap)
         else finish heap state rp t)
      else if \<not> malloc_mm sys then (Inl MallocFailed, state, heap)
      else if mp = 4 \<and> length m < off_giaddr + 4 then (Inl Fault, state, heap)
      else
        let mm = memset m d 0 dlen;
            mm = (if mp = 4 then memset (mm[off_hwopcount := 0]) off_giaddr 0 4 else mm)
        in if alg = AUTH_ALG_HMAC_MD5 then
             (let hmac = hmac_buf (hmac_md5 sys mm (key (heap t)))
              in if HMAC_LENGTH < dlen then (Inl Fault, state, heap)
                 else if memcmp (drop d m) hmac dlen \<noteq> 0 then (Inl EPERM, state, heap)
                 else finish heap state rp t)
           else (Inl ENOSYS, state, heap))"

text \<open>The test inside \<^verbatim>\<open>TAILQ_FOREACH\<close>.\<close>

definition token_matches :: "token \<Rightarrow> 32 word \<Rightarrow> byte list \<Rightarrow> nat \<Rightarrow> bool" where
  "token_matches tk sid rlm rlen =
     (secretid tk = sid \<and> length (realm tk) = rlen \<and>
      (length (realm tk) = 0 \<or> memcmp (realm tk) rlm (length (realm tk)) = 0))"

text \<open>From \<^verbatim>\<open>secretid = ntohl(secretid)\<close> to the label \<^verbatim>\<open>gottoken\<close>: the first
  token of the policy that matches, and its expiry.\<close>

definition find_token ::
  "sys \<Rightarrow> heap \<Rightarrow> authstate \<Rightarrow> auth \<Rightarrow> byte list \<Rightarrow> int \<Rightarrow> byte \<Rightarrow> byte \<Rightarrow> 64 word
     \<Rightarrow> 32 word \<Rightarrow> byte list \<Rightarrow> nat \<Rightarrow> nat \<Rightarrow> nat \<Rightarrow> vresult" where
  "find_token sys heap state a m mp proto alg rp sid0 rlm rlen d dlen =
     (let sid = ntohl sid0 in
      case find (\<lambda>t. token_matches (heap t) sid rlm rlen) (tokens a) of
        None \<Rightarrow> (Inl ESRCH, state, heap)
      | Some t \<Rightarrow>
          if expire (heap t) \<noteq> 0 \<and> time_now sys = - 1 then (Inl TimeFailed, state, heap)
          else if expire (heap t) \<noteq> 0 \<and> expire (heap t) < time_now sys then (Inl EFAULT, state, heap)
          else gottoken sys heap state m mp proto alg rp t d dlen)"

text \<open>\<^verbatim>\<open>case 1\<close> of the reconfigure key: the key of the message is stored in
  \<^verbatim>\<open>state->reconf\<close>, which is allocated on first use.\<close>

definition reconf_key :: "sys \<Rightarrow> heap \<Rightarrow> authstate \<Rightarrow> byte list \<Rightarrow> nat \<Rightarrow> vresult" where
  "reconf_key sys heap state m d =
     (case reconf state of
        None \<Rightarrow>
          (case malloc_reconf sys of
             None \<Rightarrow> (Inl MallocFailed, state, heap)
           | Some r \<Rightarrow>
               if \<not> malloc_key sys then (Inl MallocFailed, state, heap)
               else (Inr r, state\<lparr>reconf := Some r\<rparr>,
                     heap(r := \<lparr>secretid = 0, realm = [], key = take 16 (drop d m), expire = 0\<rparr>)))
      | Some r \<Rightarrow>
          if length (key (heap r)) < 16 then (Inl Fault, state, heap)
          else (Inr r, state,
                heap(r := (heap r)\<lparr>key := memcpy (key (heap r)) 0 (take 16 (drop d m))\<rparr>)))"

text \<open>The \<^verbatim>\<open>switch (protocol)\<close>.\<close>

definition validate_protocol ::
  "sys \<Rightarrow> heap \<Rightarrow> authstate \<Rightarrow> auth \<Rightarrow> byte list \<Rightarrow> int \<Rightarrow> int \<Rightarrow> byte \<Rightarrow> byte \<Rightarrow> 64 word
     \<Rightarrow> nat \<Rightarrow> nat \<Rightarrow> vresult" where
  "validate_protocol sys heap state a m mp mt proto alg rp d dlen =
     (if proto = AUTH_PROTO_TOKEN then
        find_token sys heap state a m mp proto alg rp 0 [] 0 d dlen
      else if proto = AUTH_PROTO_DELAYED then
        (if dlen < 4 + HMAC_LENGTH then (Inl EINVAL, state, heap)
         else find_token sys heap state a m mp proto alg rp (load32 (take 4 (drop d m))) [] 0
                (d + 4) (dlen - 4))
      else if proto = AUTH_PROTO_DELAYEDREALM then
        (if dlen < 4 + HMAC_LENGTH then (Inl EINVAL, state, heap)
         else
           let realm_len = dlen - (4 + HMAC_LENGTH);
               rlm = take realm_len (drop d m);
               d = d + realm_len;
               dlen = dlen - realm_len
           in find_token sys heap state a m mp proto alg rp (load32 (take 4 (drop d m))) rlm
                realm_len (d + 4) (dlen - 4))
      else if proto = AUTH_PROTO_RECONFKEY then
        (if dlen \<noteq> 1 + 16 then (Inl EINVAL, state, heap)
         else
           let type = m ! d; d = d + 1; dlen = dlen - 1
           in if type = 1 then
                (if (mp = 4 \<and> mt = DHCP_ACK) \<or> (mp = 6 \<and> mt = DHCP6_REPLY)
                 then reconf_key sys heap state m d
                 else (Inl EINVAL, state, heap))
              else if type = 2 then
                (case reconf state of
                   None \<Rightarrow> (Inl ENOENT, state, heap)
                 | Some t \<Rightarrow> gottoken sys heap state m mp proto alg rp t d dlen)
              else (Inl EINVAL, state, heap))
      else (Inl ENOTSUP, state, heap))"

text \<open>\<^verbatim>\<open>dhcp_auth_validate(state, auth, m, mlen, mp, mt, data, dlen)\<close>. The message
  \<open>m\<close> is the \<^verbatim>\<open>mlen\<close> bytes at \<^verbatim>\<open>m\<close>, \<open>data\<close> is the offset \<^verbatim>\<open>data - m\<close>.
  The result is the token returned (or the error), the session and the store.\<close>

definition dhcp_auth_validate ::
  "sys \<Rightarrow> heap \<Rightarrow> authstate \<Rightarrow> auth \<Rightarrow> byte list \<Rightarrow> int \<Rightarrow> int \<Rightarrow> int \<Rightarrow> 32 word \<Rightarrow> vresult" where
  "dhcp_auth_validate sys heap state a m mp mt data dlen0 =
     (let dlen = unat dlen0; mlen = length m in
      if dlen < 3 + 8 then (Inl EINVAL, state, heap)
      else if data < 0 \<or> data > int mlen \<or> data + int dlen > int mlen then (Inl ERANGE, state, heap)
      else
        let d = nat data;
            proto = m ! d; alg = m ! (d + 1); rd = m ! (d + 2)
        in if options a AND DHCPCD_AUTH_SEND = 0 \<and> proto \<noteq> AUTH_PROTO_RECONFKEY
             then (Inl EINVAL, state, heap)
           else if options a AND DHCPCD_AUTH_SEND \<noteq> 0 \<and>
                   (proto \<noteq> protocol a \<or> alg \<noteq> algorithm a \<or> rd \<noteq> rdm a)
             then (Inl EPERM, state, heap)
           else
             let d = d + 3; dlen = dlen - 3;
                 rp = ntohll (load64 (take 8 (drop d m)));
                 d = d + 8; dlen = dlen - 8
             in if token state \<noteq> None \<and> rp - replay state \<le> 0 then (Inl EPERM, state, heap)
                else validate_protocol sys heap state a m mp mt proto alg rp d dlen)"

section \<open>The encoder\<close>

type_synonym eresult = "(error + int) \<times> byte list \<times> rdm_state"

text \<open>The conversion of an \<^verbatim>\<open>unsigned int\<close> or \<^verbatim>\<open>size_t\<close> to the \<^verbatim>\<open>int\<close>
  that \<^verbatim>\<open>dhcp_auth_encode\<close> returns: the low 32 bits, read as two's complement.\<close>

definition to_int :: "nat \<Rightarrow> int" where
  "to_int n = sint (word_of_nat n :: 32 word)"

text \<open>The token the encoder works with: the one passed in, or, when the policy's
  protocol is 0 and none was passed, the first of the policy with secret id 0 and no
  realm, which must not have expired.\<close>

definition encode_token :: "sys \<Rightarrow> heap \<Rightarrow> auth \<Rightarrow> addr option \<Rightarrow> error + addr option" where
  "encode_token sys heap a t =
     (if protocol a = 0 \<and> t = None then
        (case find (\<lambda>t. secretid (heap t) = 0 \<and> length (realm (heap t)) = 0) (tokens a) of
           None \<Rightarrow> Inl EINVAL
         | Some t \<Rightarrow>
             if expire (heap t) \<noteq> 0 \<and> time_now sys = - 1 then Inl TimeFailed
             else if expire (heap t) \<noteq> 0 \<and> expire (heap t) < time_now sys then Inl EPERM
             else Inr (Some t))
      else Inr t)"

text \<open>The branch \<^verbatim>\<open>data == NULL\<close>: the size of the option. The sum is formed in
  \<^verbatim>\<open>unsigned int\<close> and returned as \<^verbatim>\<open>int\<close>. With the protocol
  \<^verbatim>\<open>AUTH_PROTO_TOKEN\<close> the token is dereferenced unchecked.\<close>

definition auth_size :: "heap \<Rightarrow> auth \<Rightarrow> addr option \<Rightarrow> error + int" where
  "auth_size heap a t =
     (let dlen = (1 + 1 + 1 + 8 :: 32 word) in
      if protocol a = AUTH_PROTO_TOKEN then
        (case t of
           None \<Rightarrow> Inl Fault
         | Some t \<Rightarrow> Inr (sint (dlen + word_of_nat (length (key (heap t))))))
      else if protocol a = AUTH_PROTO_DELAYEDREALM then
        (case t of
           None \<Rightarrow> Inr (sint dlen)
         | Some t \<Rightarrow>
             Inr (sint (dlen + word_of_nat (length (realm (heap t))) + word_of_nat (4 + HMAC_LENGTH))))
      else if protocol a = AUTH_PROTO_DELAYED then
        (case t of
           None \<Rightarrow> Inr (sint dlen)
         | Some t \<Rightarrow> Inr (sint (dlen + word_of_nat (4 + HMAC_LENGTH))))
      else Inr (sint dlen))"

text \<open>From \<^verbatim>\<open>Zero what's left, the MAC\<close> to the end: the rest of the option is zeroed,
  \<^verbatim>\<open>hwopcount\<close> and \<^verbatim>\<open>giaddr\<close> of a DHCPv4 message are saved and zeroed, the digest
  of the whole message is copied into the option, and the two fields are restored. \<open>d\<close>
  is the offset of the rest of the option in \<open>m\<close> and \<open>dlen\<close> its length. The digest
  is copied without a test of \<open>dlen\<close>.\<close>

definition encode_digest ::
  "sys \<Rightarrow> rdm_state \<Rightarrow> token \<Rightarrow> byte list \<Rightarrow> int \<Rightarrow> nat \<Rightarrow> nat \<Rightarrow> eresult" where
  "encode_digest sys rst tk m mp d dlen =
     (let m = memset m d 0 dlen
      in if mp = 4 \<and> length m < off_giaddr + 4 then (Inl Fault, m, rst)
         else
           let hops = m ! off_hwopcount;
               giaddr = take 4 (drop off_giaddr m);
               m = (if mp = 4 then memset (m[off_hwopcount := 0]) off_giaddr 0 4 else m);
               hmac = hmac_buf (hmac_md5 sys m (key tk))
           in if length m < d + HMAC_LENGTH then (Inl Fault, m, rst)
              else
                let m = memcpy m d hmac;
                    m = (if mp = 4 then memcpy (m[off_hwopcount := hops]) off_giaddr giaddr
                         else m)
                in (Inr (sint ((word_of_nat dlen :: 32 word) - word_of_nat HMAC_LENGTH)), m, rst))"

text \<open>From \<^verbatim>\<open>Write out the Realm\<close> on: the realm and the secret id, each after a test
  of the room left, then the digest.\<close>

definition encode_mac ::
  "sys \<Rightarrow> rdm_state \<Rightarrow> auth \<Rightarrow> token \<Rightarrow> byte list \<Rightarrow> int \<Rightarrow> nat \<Rightarrow> nat \<Rightarrow> eresult" where
  "encode_mac sys rst a tk m mp d dlen =
     (if protocol a = AUTH_PROTO_DELAYEDREALM \<and> dlen < length (realm tk) then (Inl ENOBUFS, m, rst)
      else
        let (m, d, dlen) =
              (if protocol a = AUTH_PROTO_DELAYEDREALM
               then (memcpy m d (realm tk), d + length (realm tk), dlen - length (realm tk))
               else (m, d, dlen))
        in if (protocol a = AUTH_PROTO_DELAYED \<or> protocol a = AUTH_PROTO_DELAYEDREALM) \<and> dlen < 4
             then (Inl ENOBUFS, m, rst)
           else
             let (m, d, dlen) =
                   (if protocol a = AUTH_PROTO_DELAYED \<or> protocol a = AUTH_PROTO_DELAYEDREALM
                    then (memcpy m d (store32 (htonl (secretid tk))), d + 4, dlen - 4)
                    else (m, d, dlen))
             in encode_digest sys rst tk m mp d dlen)"

text \<open>The branch \<^verbatim>\<open>data != NULL\<close>: the header and the replay value, then the key of
  the token, or nothing more for a message that carries no digest, or the digest.\<close>

definition encode_emit ::
  "sys \<Rightarrow> rdm_io \<Rightarrow> rdm_state \<Rightarrow> heap \<Rightarrow> auth \<Rightarrow> addr option \<Rightarrow> byte list \<Rightarrow> int \<Rightarrow> int \<Rightarrow> int
     \<Rightarrow> 32 word \<Rightarrow> eresult" where
  "encode_emit sys io rst heap a t m mp mt data dlen0 =
     (let dlen = unat dlen0; mlen = length m in
      if dlen < 1 + 1 + 1 + 8 then (Inl ENOBUFS, m, rst)
      else if data < 0 \<or> data > int mlen \<or> data + int dlen > int mlen then (Inl ERANGE, m, rst)
      else
        let d = nat data;
            m = m[d := protocol a, d + 1 := algorithm a, d + 2 := rdm a];
            d = d + 3;
            (r, rst) = get_next_rdm_monotonic io rst;
            m = memcpy m d (store64 (htonll r));
            d = d + 8;
            dlen = dlen - (1 + 1 + 1 + 8)
        in if protocol a = AUTH_PROTO_TOKEN then
             (case t of
                None \<Rightarrow> (Inl EINVAL, m, rst)
              | Some t \<Rightarrow>
                  if dlen < length (key (heap t)) then (Inl ENOBUFS, m, rst)
                  else (Inr (to_int (dlen - length (key (heap t)))), memcpy m d (key (heap t)), rst))
           else if (mp = 4 \<and> (mt = DHCP_DISCOVER \<or> mt = DHCP_INFORM)) \<or>
                   (mp = 6 \<and> (mt = DHCP6_SOLICIT \<or> mt = DHCP6_INFORMATION_REQ))
             then (Inr (to_int dlen), m, rst)
           else
             (case t of
                None \<Rightarrow> (Inr 0, m, rst)
              | Some t \<Rightarrow> encode_mac sys rst a (heap t) m mp d dlen))"

text \<open>\<^verbatim>\<open>dhcp_auth_encode(auth, t, m, mlen, mp, mt, data, dlen)\<close>. \<open>data\<close> is
  \<open>None\<close> for \<^verbatim>\<open>NULL\<close> and otherwise the offset \<^verbatim>\<open>data - m\<close>. The result is the
  value returned (or the error, where the source returns -1), the message buffer and the
  state of the replay counter.\<close>

definition dhcp_auth_encode ::
  "sys \<Rightarrow> rdm_io \<Rightarrow> rdm_state \<Rightarrow> heap \<Rightarrow> auth \<Rightarrow> addr option \<Rightarrow> byte list \<Rightarrow> int \<Rightarrow> int
     \<Rightarrow> int option \<Rightarrow> 32 word \<Rightarrow> eresult" where
  "dhcp_auth_encode sys io rst heap a t m mp mt data dlen =
     (case encode_token sys heap a t of
        Inl e \<Rightarrow> (Inl e, m, rst)
      | Inr t \<Rightarrow>
          if \<not> (protocol a = AUTH_PROTO_TOKEN \<or> protocol a = AUTH_PROTO_DELAYED \<or>
                protocol a = AUTH_PROTO_DELAYEDREALM)
            then (Inl ENOTSUP, m, rst)
          else if algorithm a \<noteq> AUTH_ALG_HMAC_MD5 then (Inl ENOTSUP, m, rst)
          else if rdm a \<noteq> AUTH_RDM_MONOTONIC then (Inl ENOTSUP, m, rst)
          else
            (case data of
               None \<Rightarrow>
                 (case auth_size heap a t of
                    Inl e \<Rightarrow> (Inl e, m, rst)
                  | Inr n \<Rightarrow> (Inr n, m, rst))
             | Some data \<Rightarrow> encode_emit sys io rst heap a t m mp mt data dlen))"

section \<open>Notions used in the statements\<close>

text \<open>The replay value of the option at offset \<open>data\<close>, as the validator reads it.\<close>

definition replay_value :: "byte list \<Rightarrow> int \<Rightarrow> 64 word" where
  "replay_value m data = ntohll (load64 (take 8 (drop (nat data + 3) m)))"

text \<open>The validator reaches its \<^verbatim>\<open>switch (protocol)\<close>: none of the returns before it
  is taken. The option has its 11 bytes and lies inside the message, the header agrees with
  the policy (a policy that does not send accepts only the reconfigure key protocol), and
  the replay check does not fire.\<close>

definition passes_header :: "authstate \<Rightarrow> auth \<Rightarrow> byte list \<Rightarrow> int \<Rightarrow> 32 word \<Rightarrow> bool" where
  "passes_header state a m data dlen =
     (3 + 8 \<le> unat dlen \<and> 0 \<le> data \<and> data + int (unat dlen) \<le> int (length m) \<and>
      (if options a AND DHCPCD_AUTH_SEND = 0 then m ! nat data = AUTH_PROTO_RECONFKEY
       else m ! nat data = protocol a \<and> m ! (nat data + 1) = algorithm a \<and>
            m ! (nat data + 2) = rdm a) \<and>
      (token state = None \<or> replay_value m data \<noteq> replay state))"

text \<open>The message as the digest is computed over it: in a DHCPv4 message \<^verbatim>\<open>hwopcount\<close>
  and the four bytes of \<^verbatim>\<open>giaddr\<close> are zero.\<close>

definition zeroed_header :: "int \<Rightarrow> byte list \<Rightarrow> byte list" where
  "zeroed_header mp m = (if mp = 4 then memset (m[off_hwopcount := 0]) off_giaddr 0 4 else m)"

text \<open>The size of the option as the spec's section 4.2 gives it: 11 bytes, and the
  addition of the protocol.\<close>

definition spec_option_size :: "auth \<Rightarrow> token \<Rightarrow> nat" where
  "spec_option_size a tk =
     11 + (if protocol a = AUTH_PROTO_TOKEN then length (key tk)
           else if protocol a = AUTH_PROTO_DELAYED then 4 + 16
           else length (realm tk) + 4 + 16)"

text \<open>The token given to the encoder is the one the validator will find: the first token
  of the policy whose secret id and realm are those the option carries. Under
  \<^verbatim>\<open>TOKEN\<close> the option carries neither, and the validator looks for the secret id 0
  and no realm; under \<^verbatim>\<open>DELAYED\<close> it carries no realm.\<close>

definition resolves_to :: "heap \<Rightarrow> auth \<Rightarrow> addr \<Rightarrow> bool" where
  "resolves_to heap a t =
     (find (\<lambda>x. token_matches (heap x)
              (if protocol a = AUTH_PROTO_TOKEN then 0 else secretid (heap t))
              (if protocol a = AUTH_PROTO_DELAYEDREALM then realm (heap t) else [])
              (if protocol a = AUTH_PROTO_DELAYEDREALM then length (realm (heap t)) else 0))
        (tokens a) = Some t)"

text \<open>The token has no expiry, or the clock can be read and has not passed it.\<close>

definition unexpired :: "sys \<Rightarrow> token \<Rightarrow> bool" where
  "unexpired sys tk = (expire tk = 0 \<or> (time_now sys \<noteq> - 1 \<and> \<not> expire tk < time_now sys))"

text \<open>The message types for which the encoder computes a digest: all but DISCOVER and
  INFORM of DHCPv4 and SOLICIT and INFORMATION-REQUEST of DHCPv6.\<close>

definition carries_digest :: "int \<Rightarrow> int \<Rightarrow> bool" where
  "carries_digest mp mt =
     (\<not> ((mp = 4 \<and> (mt = DHCP_DISCOVER \<or> mt = DHCP_INFORM)) \<or>
         (mp = 6 \<and> (mt = DHCP6_SOLICIT \<or> mt = DHCP6_INFORMATION_REQ))))"

section \<open>Concrete inputs\<close>

text \<open>A stand-in for the digest (the key, then the message), a clock that reads 1000, and
  allocations that succeed.\<close>

definition ex_sys :: sys where
  "ex_sys = \<lparr>hmac_md5 = (\<lambda>m k. k @ m), time_now = 1000, malloc_reconf = Some 9,
     malloc_key = True, malloc_mm = True\<rparr>"

text \<open>The token with the key \<^verbatim>\<open>hello\<close> and the secret id 0, and the token with the
  key \<^verbatim>\<open>world\<close> and the secret id 42. In \<open>ex_heap\<close> every address holds the first;
  in \<open>ex_heap2\<close> the address 2 holds the second.\<close>

definition ex_hello :: token where
  "ex_hello = \<lparr>secretid = 0, realm = [], key = [0x68, 0x65, 0x6c, 0x6c, 0x6f], expire = 0\<rparr>"

definition ex_world :: token where
  "ex_world = \<lparr>secretid = 42, realm = [], key = [0x77, 0x6f, 0x72, 0x6c, 0x64], expire = 0\<rparr>"

definition ex_heap :: heap where
  "ex_heap = (\<lambda>_. ex_hello)"

definition ex_heap2 :: heap where
  "ex_heap2 = (\<lambda>_. ex_hello)(2 := ex_world)"

text \<open>The policy \<^verbatim>\<open>{TOKEN, HMAC_MD5, MONOTONIC, SEND}\<close> with the token at address 1, the
  policy \<^verbatim>\<open>{DELAYED, HMAC_MD5, MONOTONIC, SEND}\<close> with the tokens at 1 and 2, and a
  policy that does not send.\<close>

definition ex_policy :: auth where
  "ex_policy = \<lparr>options = DHCPCD_AUTH_SEND, protocol = AUTH_PROTO_TOKEN,
     algorithm = AUTH_ALG_HMAC_MD5, rdm = AUTH_RDM_MONOTONIC, tokens = [1]\<rparr>"

definition ex_delayed :: auth where
  "ex_delayed = \<lparr>options = DHCPCD_AUTH_SEND, protocol = AUTH_PROTO_DELAYED,
     algorithm = AUTH_ALG_HMAC_MD5, rdm = AUTH_RDM_MONOTONIC, tokens = [1, 2]\<rparr>"

definition ex_no_send :: auth where
  "ex_no_send = \<lparr>options = 0, protocol = 0, algorithm = 0, rdm = 0, tokens = []\<rparr>"

text \<open>Three variations: the \<^verbatim>\<open>TOKEN\<close> policy with both tokens, the \<^verbatim>\<open>TOKEN\<close>
  policy without the \<^verbatim>\<open>SEND\<close> flag, and a store whose token expired at time 500.\<close>

definition ex_policy_two :: auth where
  "ex_policy_two = ex_policy\<lparr>tokens := [1, 2]\<rparr>"

definition ex_policy_no_send :: auth where
  "ex_policy_no_send = ex_policy\<lparr>options := 0\<rparr>"

definition ex_heap_expired :: heap where
  "ex_heap_expired = (\<lambda>_. ex_hello\<lparr>expire := 500\<rparr>)"

text \<open>The policy \<^verbatim>\<open>{DELAYED_REALM, HMAC_MD5, MONOTONIC, SEND}\<close> with the token at
  address 3, which has the realm \<^verbatim>\<open>home\<close>, the secret id 42 and the key
  \<^verbatim>\<open>world\<close>.\<close>

definition ex_home :: token where
  "ex_home = \<lparr>secretid = 42, realm = [0x68, 0x6f, 0x6d, 0x65],
     key = [0x77, 0x6f, 0x72, 0x6c, 0x64], expire = 0\<rparr>"

definition ex_heap_realm :: heap where
  "ex_heap_realm = (\<lambda>_. ex_hello)(3 := ex_home)"

definition ex_delayed_realm :: auth where
  "ex_delayed_realm = \<lparr>options = DHCPCD_AUTH_SEND, protocol = AUTH_PROTO_DELAYEDREALM,
     algorithm = AUTH_ALG_HMAC_MD5, rdm = AUTH_RDM_MONOTONIC, tokens = [3]\<rparr>"

text \<open>A session before its first validation, and one pinned to the token at address 1
  with the replay value \<open>n\<close>.\<close>

definition ex_fresh :: authstate where
  "ex_fresh = \<lparr>replay = 0, token = None, reconf = None\<rparr>"

definition ex_pinned :: "64 word \<Rightarrow> authstate" where
  "ex_pinned n = \<lparr>replay = n, token = Some 1, reconf = None\<rparr>"

text \<open>A DHCPv6 message (type, transaction id, option code and length) and a DHCPv4
  message (the BOOTP header with \<^verbatim>\<open>hwopcount = 3\<close> and \<^verbatim>\<open>giaddr = 10.0.0.1\<close>, up to
  the magic cookie) around an authentication option, which starts at offset 8 and at
  offset 240.\<close>

definition ex_message6 :: "byte list \<Rightarrow> byte list" where
  "ex_message6 opt = [7, 0x12, 0x34, 0x56, 0, 11, 0, word_of_nat (length opt)] @ opt"

definition ex_message4 :: "byte list \<Rightarrow> byte list" where
  "ex_message4 opt = [2, 1, 6, 3] @ replicate 20 0 @ [10, 0, 0, 1] @ replicate 212 0 @ opt"

text \<open>A DHCPv4 message of 277 bytes: a slice of 29 bytes at offset 240 for the
  authentication option, and eight more bytes behind it.\<close>

definition ex_short :: "byte list" where
  "ex_short = ex_message4 (replicate 29 0 @ [0xa1, 0xa2, 0xa3, 0xa4, 0xa5, 0xa6, 0xa7, 0xa8])"

text \<open>An option of \<open>ex_policy\<close> with the replay value \<open>n\<close> and the key \<^verbatim>\<open>hello\<close>;
  a reconfigure key option of type \<open>ty\<close> with the replay value 1 and the key 1 to 16;
  and the option that the encoder writes for \<open>ex_delayed\<close> and the token at 2 into
  \<open>ex_message6\<close>, with the replay value 1.\<close>

definition ex_option :: "byte \<Rightarrow> byte list" where
  "ex_option n = [0, 1, 0, 0, 0, 0, 0, 0, 0, 0, n, 0x68, 0x65, 0x6c, 0x6c, 0x6f]"

definition ex_reconf_option :: "byte \<Rightarrow> byte list" where
  "ex_reconf_option ty = [2, 1, 0, 0, 0, 0, 0, 0, 0, 0, 1, ty,
     1, 2, 3, 4, 5, 6, 7, 8, 9, 10, 11, 12, 13, 14, 15, 16]"

definition ex_delayed_option :: "byte list" where
  "ex_delayed_option = [1, 1, 0, 0, 0, 0, 0, 0, 0, 0, 1, 0, 0, 0, 42,
     0x77, 0x6f, 0x72, 0x6c, 0x64, 7, 0x12, 0x34, 0x56, 0, 11, 0, 31, 1, 1, 0]"

text \<open>A file system on which \<^verbatim>\<open>fopen(RDM_MONOFILE, "r+")\<close> fails with an
  \<^verbatim>\<open>errno\<close> other than \<^verbatim>\<open>ENOENT\<close>.\<close>

definition io_no_open :: rdm_io where
  "io_no_open = io_ok\<lparr>fopen_r_fails := True\<rparr>"

text \<open>The counter file that holds the digit \<open>c\<close>.\<close>

definition ex_file :: "char \<Rightarrow> string" where
  "ex_file c = ''0x000000000000000'' @ [c, CHR 0x0A]"

section \<open>Byte order\<close>

text \<open>Storing and loading are inverse, and so are the conversions between host and
  network byte order.\<close>

lemma load32_store32: "load32 (store32 w) = w"
proof (rule bit_word_eqI)
  fix n assume "n < LENGTH(32)"
  then consider "n < 8" | "8 \<le> n" "n < 16" | "16 \<le> n" "n < 24" | "24 \<le> n" "n < 32"
    by fastforce
  then show "bit (load32 (store32 w)) n = bit w n"
    unfolding load32_def store32_def
    by cases (auto simp: bit_simps)
qed

lemma store32_load32:
  "store32 (load32 [b0, b1, b2, b3]) = [b0, b1, b2, b3]"
proof -
  have "ucast (load32 [b0, b1, b2, b3]) = b0"
    unfolding load32_def by (rule bit_word_eqI) (auto simp: bit_simps dest: bit_imp_le_length)
  moreover have "ucast (drop_bit 8 (load32 [b0, b1, b2, b3])) = b1"
    unfolding load32_def by (rule bit_word_eqI) (auto simp: bit_simps dest: bit_imp_le_length)
  moreover have "ucast (drop_bit 16 (load32 [b0, b1, b2, b3])) = b2"
    unfolding load32_def by (rule bit_word_eqI) (auto simp: bit_simps dest: bit_imp_le_length)
  moreover have "ucast (drop_bit 24 (load32 [b0, b1, b2, b3])) = b3"
    unfolding load32_def by (rule bit_word_eqI) (auto simp: bit_simps dest: bit_imp_le_length)
  ultimately show ?thesis by (simp add: store32_def)
qed

lemma load64_store64: "load64 (store64 w) = w"
proof (rule bit_word_eqI)
  fix n assume "n < LENGTH(64)"
  then consider "n < 8" | "8 \<le> n" "n < 16" | "16 \<le> n" "n < 24" | "24 \<le> n" "n < 32"
    | "32 \<le> n" "n < 40" | "40 \<le> n" "n < 48" | "48 \<le> n" "n < 56" | "56 \<le> n" "n < 64"
    by fastforce
  then show "bit (load64 (store64 w)) n = bit w n"
    unfolding load64_def store64_def
    by cases (auto simp: bit_simps)
qed

lemma ntohl_htonl: "ntohl (htonl x) = x"
proof -
  have "store32 (htonl x) = rev (store32 x)"
    by (simp add: htonl_def store32_def [of x] store32_load32)
  then show ?thesis
    by (simp add: ntohl_def load32_store32)
qed

lemma ntohl_0: "ntohl 0 = 0"
  by (simp add: ntohl_def store32_def load32_def)

lemma mask32: "(0xffffffff :: 64 word) = mask 32"
  by (simp add: mask_eq_exp_minus_1)

lemma halves_hi:
  "ucast (drop_bit 32 (ucast (a :: 32 word) OR push_bit 32 (ucast b) :: 64 word)) = (b :: 32 word)"
  by (rule bit_word_eqI) (auto simp: bit_simps dest: bit_imp_le_length)

lemma halves_lo:
  "ucast ((ucast a OR push_bit 32 (ucast (b :: 32 word)) :: 64 word) AND mask 32) = (a :: 32 word)"
  by (rule bit_word_eqI) (auto simp: bit_simps dest: bit_imp_le_length)

lemma halves_join:
  "ucast (ucast (x AND mask 32) :: 32 word) OR push_bit 32 (ucast (ucast (drop_bit 32 x) :: 32 word)) = (x :: 64 word)"
proof (rule bit_word_eqI)
  fix n assume "n < LENGTH(64)"
  then consider "n < 32" | "32 \<le> n" "n < 64" by fastforce
  then show "bit (ucast (ucast (x AND mask 32) :: 32 word) OR
      push_bit 32 (ucast (ucast (drop_bit 32 x) :: 32 word)) :: 64 word) n = bit x n"
    by cases (auto simp: bit_simps)
qed

lemma ntohll_htonll: "ntohll (htonll x) = x"
  unfolding ntohll_def htonll_def mask32
  by (simp only: halves_hi halves_lo ntohl_htonl halves_join)


section \<open>Copies into a buffer\<close>

lemma memcpy_app: "memcpy (A @ B) (length A) src = A @ src @ drop (length src) B"
  by (simp add: memcpy_def)

lemma memset_app: "memset (A @ B) (length A) c k = A @ replicate k c @ drop k B"
  by (simp add: memset_def memcpy_app)

lemma update3_app:
  assumes "3 \<le> length B"
  shows "(A @ B)[length A := x, length A + 1 := y, length A + 2 := z] = A @ [x, y, z] @ drop 3 B"
proof -
  from assms obtain b0 b1 b2 B' where "B = b0 # b1 # b2 # B'"
    by (cases B; cases "tl B"; cases "tl (tl B)") auto
  then show ?thesis by (simp add: list_update_append)
qed

lemma memcpy_prefix: "x + length src \<le> length Q \<Longrightarrow> memcpy (Q @ R) x src = memcpy Q x src @ R"
  by (simp add: memcpy_def)

lemma memset_prefix: "x + k \<le> length Q \<Longrightarrow> memset (Q @ R) x c k = memset Q x c k @ R"
  by (simp add: memset_def memcpy_prefix)

lemma length_memcpy: "d + length src \<le> length m \<Longrightarrow> length (memcpy m d src) = length m"
  by (simp add: memcpy_def)

lemma nth_memcpy:
  "d + length src \<le> length m \<Longrightarrow> i < length m \<Longrightarrow>
   memcpy m d src ! i = (if d \<le> i \<and> i < d + length src then src ! (i - d) else m ! i)"
  by (auto simp: memcpy_def nth_append)

lemma length_memset: "d + n \<le> length m \<Longrightarrow> length (memset m d c n) = length m"
  by (simp add: memset_def length_memcpy)

lemma nth_memset:
  "d + n \<le> length m \<Longrightarrow> i < length m \<Longrightarrow>
   memset m d c n ! i = (if d \<le> i \<and> i < d + n then c else m ! i)"
  by (auto simp: memset_def nth_memcpy)

lemma nth_take_drop:
  "lo \<le> i \<Longrightarrow> i < lo + k \<Longrightarrow> lo + k \<le> length xs \<Longrightarrow> take k (drop lo xs) ! (i - lo) = xs ! i"
  by simp

lemma length_hmac_buf: "length (hmac_buf x) = 16"
  by (simp add: hmac_buf_def HMAC_LENGTH_def)

text \<open>Saving, zeroing and restoring hwopcount and giaddr gives the header back.\<close>

lemma memcpy_frame:
  assumes "lo \<le> x" "x + length src \<le> hi" "hi \<le> length m"
  shows "length (memcpy m x src) = length m \<and>
    (\<forall>i<length m. i < lo \<or> hi \<le> i \<longrightarrow> memcpy m x src ! i = m ! i)"
  using assms by (auto simp: length_memcpy nth_memcpy)

lemma length_store32: "length (store32 w) = 4"
  by (simp add: store32_def)

lemma length_store64: "length (store64 w) = 8"
  by (simp add: store64_def)

lemma proto_distinct:
  "AUTH_PROTO_TOKEN \<noteq> AUTH_PROTO_DELAYED" "AUTH_PROTO_TOKEN \<noteq> AUTH_PROTO_DELAYEDREALM"
  "AUTH_PROTO_TOKEN \<noteq> AUTH_PROTO_RECONFKEY" "AUTH_PROTO_DELAYED \<noteq> AUTH_PROTO_TOKEN"
  "AUTH_PROTO_DELAYED \<noteq> AUTH_PROTO_DELAYEDREALM" "AUTH_PROTO_DELAYED \<noteq> AUTH_PROTO_RECONFKEY"
  "AUTH_PROTO_DELAYEDREALM \<noteq> AUTH_PROTO_TOKEN" "AUTH_PROTO_DELAYEDREALM \<noteq> AUTH_PROTO_DELAYED"
  "AUTH_PROTO_DELAYEDREALM \<noteq> AUTH_PROTO_RECONFKEY" "AUTH_PROTO_RECONFKEY \<noteq> AUTH_PROTO_TOKEN"
  "AUTH_PROTO_RECONFKEY \<noteq> AUTH_PROTO_DELAYED" "AUTH_PROTO_RECONFKEY \<noteq> AUTH_PROTO_DELAYEDREALM"
  by (simp_all add: AUTH_PROTO_TOKEN_def AUTH_PROTO_DELAYED_def AUTH_PROTO_DELAYEDREALM_def
      AUTH_PROTO_RECONFKEY_def)

lemma take_drop_app: "length X = k \<Longrightarrow> length Y = j \<Longrightarrow> take j (drop k (X @ Y @ Z)) = Y"
  by simp


section \<open>The outcomes of the validator\<close>

lemma gottoken_cases:
  "(\<exists>e. gottoken sys heap state m mp proto alg rp t d dlen = (Inl e, state, heap)) \<or>
   (gottoken sys heap state m mp proto alg rp t d dlen = finish heap state rp t \<and>
    (token state = None \<or> token state = Some t))"
  by (simp add: gottoken_def Let_def)

lemma find_token_cases:
  "(\<exists>e. find_token sys heap state a m mp proto alg rp sid rlm rlen d dlen = (Inl e, state, heap)) \<or>
   (\<exists>t. find_token sys heap state a m mp proto alg rp sid rlm rlen d dlen = finish heap state rp t \<and>
    (token state = None \<or> token state = Some t))"
  using gottoken_cases [of sys heap state m mp proto alg rp _ d dlen]
  by (simp add: find_token_def Let_def split: option.splits) blast

lemma reconf_key_cases:
  "(\<exists>e. reconf_key sys heap state m d = (Inl e, state, heap)) \<or>
   (\<exists>r. reconf_key sys heap state m d =
      (Inr r, state\<lparr>reconf := Some r\<rparr>,
       heap(r := \<lparr>secretid = 0, realm = [], key = take 16 (drop d m), expire = 0\<rparr>)) \<and>
      reconf state = None) \<or>
   (\<exists>r. reconf_key sys heap state m d =
      (Inr r, state, heap(r := (heap r)\<lparr>key := memcpy (key (heap r)) 0 (take 16 (drop d m))\<rparr>)) \<and>
      reconf state = Some r \<and> 16 \<le> length (key (heap r)))"
  by (simp add: reconf_key_def split: option.splits)

lemma validate_protocol_cases:
  "(\<exists>e. validate_protocol sys heap state a m mp mt proto alg rp d dlen = (Inl e, state, heap)) \<or>
   (\<exists>t. validate_protocol sys heap state a m mp mt proto alg rp d dlen = finish heap state rp t \<and>
        (token state = None \<or> token state = Some t) \<and>
        (proto = AUTH_PROTO_RECONFKEY \<longrightarrow> m ! d = 2)) \<or>
   (validate_protocol sys heap state a m mp mt proto alg rp d dlen = reconf_key sys heap state m (d + 1) \<and>
    proto = AUTH_PROTO_RECONFKEY \<and> dlen = 17 \<and> m ! d = 1 \<and>
    ((mp = 4 \<and> mt = DHCP_ACK) \<or> (mp = 6 \<and> mt = DHCP6_REPLY)))"
proof -
  note ft = find_token_cases [of sys heap state a m mp proto alg rp]
  note gt = gottoken_cases [of sys heap state m mp proto alg rp]
  have distinct: "AUTH_PROTO_TOKEN \<noteq> AUTH_PROTO_RECONFKEY" "AUTH_PROTO_DELAYED \<noteq> AUTH_PROTO_RECONFKEY"
    "AUTH_PROTO_DELAYEDREALM \<noteq> AUTH_PROTO_RECONFKEY"
    by (simp_all add: AUTH_PROTO_TOKEN_def AUTH_PROTO_DELAYED_def AUTH_PROTO_DELAYEDREALM_def
        AUTH_PROTO_RECONFKEY_def)
  consider (tok) "proto = AUTH_PROTO_TOKEN"
    | (del) "proto \<noteq> AUTH_PROTO_TOKEN" "proto = AUTH_PROTO_DELAYED"
    | (rlm) "proto \<noteq> AUTH_PROTO_TOKEN" "proto \<noteq> AUTH_PROTO_DELAYED" "proto = AUTH_PROTO_DELAYEDREALM"
    | (rec) "proto \<noteq> AUTH_PROTO_TOKEN" "proto \<noteq> AUTH_PROTO_DELAYED" "proto \<noteq> AUTH_PROTO_DELAYEDREALM"
        "proto = AUTH_PROTO_RECONFKEY"
    | (other) "proto \<noteq> AUTH_PROTO_TOKEN" "proto \<noteq> AUTH_PROTO_DELAYED" "proto \<noteq> AUTH_PROTO_DELAYEDREALM"
        "proto \<noteq> AUTH_PROTO_RECONFKEY"
    by blast
  then show ?thesis
  proof cases
    case tok
    with distinct ft [of 0 "[]" 0 d dlen] show ?thesis
      by (simp add: validate_protocol_def)
  next
    case del
    with distinct ft [of "load32 (take 4 (drop d m))" "[]" 0 "d + 4" "dlen - 4"] show ?thesis
      by (simp add: validate_protocol_def)
  next
    case rlm
    with distinct show ?thesis
      by (simp add: validate_protocol_def Let_def) (intro impI find_token_cases)
  next
    case rec
    show ?thesis
    proof (cases "dlen = 17 \<and> m ! d = 2 \<and> reconf state \<noteq> None")
      case True
      then obtain t where t: "reconf state = Some t" by auto
      from True rec t have "validate_protocol sys heap state a m mp mt proto alg rp d dlen =
          gottoken sys heap state m mp proto alg rp t (d + 1) (dlen - 1)"
        by (simp add: validate_protocol_def Let_def)
      with gottoken_cases [of sys heap state m mp proto alg rp t "d + 1" "dlen - 1"] True
      show ?thesis by auto
    next
      case False
      with rec show ?thesis
        by (auto simp: validate_protocol_def Let_def split: option.splits)
    qed
  next
    case other
    then show ?thesis
      by (simp add: validate_protocol_def)
  qed
qed


lemma validate_header:
  assumes "passes_header state a m data dlen"
  shows "dhcp_auth_validate sys heap state a m mp mt data dlen =
     validate_protocol sys heap state a m mp mt (m ! nat data) (m ! (nat data + 1))
       (replay_value m data) (nat data + 11) (unat dlen - 11)"
proof -
  have nn: "0 \<le> int (unat dlen)" by simp
  from assms have a1: "\<not> unat dlen < 3 + 8"
    by (simp add: passes_header_def)
  from assms have r: "0 \<le> data" "data + int (unat dlen) \<le> int (length m)"
    by (simp_all add: passes_header_def)
  with nn have a2: "\<not> (data < 0 \<or> data > int (length m) \<or> data + int (unat dlen) > int (length m))"
    by linarith
  from assms have a3: "\<not> (options a AND DHCPCD_AUTH_SEND = 0 \<and> m ! nat data \<noteq> AUTH_PROTO_RECONFKEY)"
    by (simp add: passes_header_def split: if_splits)
  from assms have a4: "\<not> (options a AND DHCPCD_AUTH_SEND \<noteq> 0 \<and>
      (m ! nat data \<noteq> protocol a \<or> m ! (nat data + 1) \<noteq> algorithm a \<or> m ! (nat data + 2) \<noteq> rdm a))"
    by (simp add: passes_header_def split: if_splits)
  from assms have a5: "\<not> (token state \<noteq> None \<and>
      ntohll (load64 (take 8 (drop (nat data + 3) m))) - replay state \<le> 0)"
    by (auto simp: passes_header_def replay_value_def)
  have c: "nat data + 3 + 8 = nat data + 11" "unat dlen - 3 - 8 = unat dlen - 11" by simp_all
  show ?thesis
    unfolding dhcp_auth_validate_def Let_def replay_value_def
    by (simp only: a1 a2 a3 a4 a5 if_False c)
qed


lemma validate_no_header:
  assumes "\<not> passes_header state a m data dlen"
  shows "\<exists>e. dhcp_auth_validate sys heap state a m mp mt data dlen = (Inl e, state, heap)"
proof -
  have nn: "0 \<le> int (unat dlen)" by simp
  let ?g1 = "unat dlen < 3 + 8"
  let ?g2 = "data < 0 \<or> data > int (length m) \<or> data + int (unat dlen) > int (length m)"
  let ?g3 = "options a AND DHCPCD_AUTH_SEND = 0 \<and> m ! nat data \<noteq> AUTH_PROTO_RECONFKEY"
  let ?g4 = "options a AND DHCPCD_AUTH_SEND \<noteq> 0 \<and>
      (m ! nat data \<noteq> protocol a \<or> m ! (nat data + 1) \<noteq> algorithm a \<or> m ! (nat data + 2) \<noteq> rdm a)"
  let ?g5 = "token state \<noteq> None \<and>
      ntohll (load64 (take 8 (drop (nat data + 3) m))) - replay state \<le> 0"
  from assms have "?g1 \<or> ?g2 \<or> ?g3 \<or> ?g4 \<or> ?g5"
    unfolding passes_header_def replay_value_def word_le_0_iff
    by (cases "options a AND DHCPCD_AUTH_SEND = 0") auto
  then show ?thesis
    unfolding dhcp_auth_validate_def Let_def by auto
qed


lemma validate_cases:
  "(\<exists>e. dhcp_auth_validate sys heap state a m mp mt data dlen = (Inl e, state, heap)) \<or>
   (\<exists>t. dhcp_auth_validate sys heap state a m mp mt data dlen =
          finish heap state (replay_value m data) t \<and>
        (token state = None \<or> token state = Some t) \<and>
        (m ! nat data = AUTH_PROTO_RECONFKEY \<longrightarrow> m ! (nat data + 11) = 2)) \<or>
   (dhcp_auth_validate sys heap state a m mp mt data dlen =
      reconf_key sys heap state m (nat data + 12) \<and>
    passes_header state a m data dlen \<and>
    m ! nat data = AUTH_PROTO_RECONFKEY \<and> unat dlen = 28 \<and> m ! (nat data + 11) = 1 \<and>
    ((mp = 4 \<and> mt = DHCP_ACK) \<or> (mp = 6 \<and> mt = DHCP6_REPLY)))"
proof (cases "passes_header state a m data dlen")
  case False
  from validate_no_header [OF this] show ?thesis by blast
next
  case True
  then have len: "11 \<le> unat dlen" by (simp add: passes_header_def)
  have c: "nat data + 11 + 1 = nat data + 12" by simp
  from validate_protocol_cases [of sys heap state a m mp mt "m ! nat data" "m ! (nat data + 1)"
      "replay_value m data" "nat data + 11" "unat dlen - 11"] True len
  show ?thesis
    unfolding validate_header [OF True] c by auto
qed


lemma to_int_arith: "to_int n = (int n + 2 ^ 31) mod 2 ^ 32 - 2 ^ 31"
proof -
  have "(word_of_nat n :: 32 word) = word_of_int (int n)" by simp
  then show ?thesis
    unfolding to_int_def by (simp only: int_word_sint) simp
qed

lemma to_int_small: "n < 2 ^ 31 \<Longrightarrow> to_int n = int n"
  by (simp add: to_int_arith)


section \<open>The replay check compares an unsigned difference with zero\<close>

text \<open>
  C1. The claim: with a pinned token, a received replay value less than or equal to
  \<^verbatim>\<open>state.replay\<close> is denied. The source tests \<^verbatim>\<open>replay - state->replay <= 0\<close> on
  two \<^verbatim>\<open>uint64_t\<close>, which holds only when the two are equal. With the token pinned
  and \<^verbatim>\<open>state.replay = 5\<close>, an otherwise valid option with the replay value 3 is
  accepted, and the session's replay value goes back to 3.
\<close>

theorem C1_smaller_replay_accepted:
  "fst (dhcp_auth_validate ex_sys ex_heap (ex_pinned 5)
          ex_policy (ex_message6 (ex_option 3)) 6 7 8 16) = Inr 1 \<and>
   fst (snd (dhcp_auth_validate ex_sys ex_heap (ex_pinned 5)
          ex_policy (ex_message6 (ex_option 3)) 6 7 8 16)) = ex_pinned 3"
  by code_simp

theorem C1_smaller_replay_not_denied:
  "fst (dhcp_auth_validate ex_sys ex_heap (ex_pinned 5)
          ex_policy (ex_message6 (ex_option 3)) 6 7 8 16) \<noteq> Inl EPERM"
  using C1_smaller_replay_accepted by simp

section \<open>What the encoder writes, the validator accepts\<close>

text \<open>The bytes the encoder leaves in the message, for an option of exactly the size of
  the size query, and the validator's answer to them.\<close>

text \<open>Saving, zeroing and restoring hwopcount and giaddr gives the header back.\<close>

lemma header_restored:
  assumes "28 \<le> length Q"
  shows "memcpy ((memset (Q[off_hwopcount := 0]) off_giaddr 0 4)[off_hwopcount := Q ! off_hwopcount])
           off_giaddr (take 4 (drop off_giaddr Q)) = Q"
proof (rule nth_equalityI)
  let ?Z = "memset (Q[off_hwopcount := 0]) off_giaddr 0 4"
  from assms have lz: "length ?Z = length Q"
    by (simp add: length_memset off_giaddr_def)
  with assms show len: "length (memcpy (?Z[off_hwopcount := Q ! off_hwopcount]) off_giaddr
      (take 4 (drop off_giaddr Q))) = length Q"
    by (simp add: length_memcpy off_giaddr_def)
  fix i assume "i < length (memcpy (?Z[off_hwopcount := Q ! off_hwopcount]) off_giaddr
      (take 4 (drop off_giaddr Q)))"
  with len have i: "i < length Q" by simp
  show "memcpy (?Z[off_hwopcount := Q ! off_hwopcount]) off_giaddr (take 4 (drop off_giaddr Q)) ! i = Q ! i"
  proof (cases "24 \<le> i \<and> i < 28")
    case True
    with assms have "take 4 (drop 24 Q) ! (i - 24) = Q ! i"
      by (intro nth_take_drop) simp_all
    with True assms lz i show ?thesis
      by (simp add: nth_memcpy off_giaddr_def)
  next
    case False
    with assms lz i show ?thesis
      by (auto simp: nth_memcpy nth_memset nth_list_update off_giaddr_def off_hwopcount_def)
  qed
qed

lemma encode_digest_exact:
  assumes R: "16 \<le> length R" and Q: "mp = 4 \<longrightarrow> 28 \<le> length Q"
  shows "encode_digest sys rst tk (Q @ R) mp (length Q) 16 =
     (Inr 0, Q @ hmac_buf (hmac_md5 sys (zeroed_header mp (Q @ replicate 16 0 @ drop 16 R)) (key tk))
        @ drop 16 R, rst)"
proof -
  let ?Z = "replicate 16 (0 :: byte) @ drop 16 R"
  let ?m1 = "Q @ ?Z"
  let ?h = "hmac_buf (hmac_md5 sys (zeroed_header mp ?m1) (key tk))"
  have m1: "memset (Q @ R) (length Q) 0 16 = ?m1" by (simp add: memset_app)
  from R have lm1: "length ?m1 = length Q + length R" by simp
  have r0: "sint ((word_of_nat 16 :: 32 word) - word_of_nat HMAC_LENGTH) = 0"
    by (simp add: HMAC_LENGTH_def)
  have dz: "drop 16 ?Z = drop 16 R" by simp
  show ?thesis
  proof (cases "mp = 4")
    case False
    have "memcpy ?m1 (length Q) ?h = Q @ ?h @ drop 16 R"
      by (simp only: memcpy_app length_hmac_buf dz)
    with False R show ?thesis
      unfolding encode_digest_def m1 Let_def
      by (simp add: r0 HMAC_LENGTH_def zeroed_header_def)
  next
    case True
    with Q have lq: "28 \<le> length Q" by simp
    let ?Q' = "memset (Q[off_hwopcount := 0]) off_giaddr 0 4"
    from lq have lq': "length ?Q' = length Q" by (simp add: length_memset off_giaddr_def)
    from lq have z: "memset (?m1[off_hwopcount := 0]) off_giaddr 0 4 = ?Q' @ ?Z"
      by (simp add: list_update_append1 memset_prefix off_hwopcount_def off_giaddr_def)
    with True have zh: "zeroed_header mp ?m1 = ?Q' @ ?Z" by (simp add: zeroed_header_def)
    let ?h' = "hmac_buf (hmac_md5 sys (?Q' @ ?Z) (key tk))"
    have c: "memcpy (?Q' @ ?Z) (length Q) ?h' = ?Q' @ ?h' @ drop 16 R"
      using memcpy_app [of ?Q' ?Z ?h'] by (simp only: lq' length_hmac_buf dz)
    from lq have hops: "?m1 ! off_hwopcount = Q ! off_hwopcount"
      by (simp add: nth_append off_hwopcount_def)
    from lq have gi: "take 4 (drop off_giaddr ?m1) = take 4 (drop off_giaddr Q)"
      by (simp add: off_giaddr_def)
    from lq lq' have "memcpy ((?Q' @ ?h' @ drop 16 R)[off_hwopcount := Q ! off_hwopcount]) off_giaddr
        (take 4 (drop off_giaddr Q)) =
        memcpy (?Q'[off_hwopcount := Q ! off_hwopcount]) off_giaddr (take 4 (drop off_giaddr Q))
          @ ?h' @ drop 16 R"
      by (simp add: list_update_append1 memcpy_prefix off_hwopcount_def off_giaddr_def)
    also from lq have "\<dots> = Q @ ?h' @ drop 16 R"
      by (simp only: header_restored)
    finally have fin: "memcpy ((?Q' @ ?h' @ drop 16 R)[off_hwopcount := Q ! off_hwopcount]) off_giaddr
        (take 4 (drop off_giaddr Q)) = Q @ ?h' @ drop 16 R" .
    from lq R have g1: "\<not> length ?m1 < off_giaddr + 4"
      by (simp add: off_giaddr_def)
    from R lq' have g2: "\<not> length (?Q' @ ?Z) < length Q + HMAC_LENGTH"
      by (simp add: HMAC_LENGTH_def)
    have "encode_digest sys rst tk (Q @ R) mp (length Q) 16 = (Inr 0, Q @ ?h' @ drop 16 R, rst)"
      unfolding encode_digest_def m1 Let_def
      by (simp only: True g1 simp_thms if_False if_True z hops gi g2 c fin r0)
    then show ?thesis by (simp only: zh)
  qed
qed

lemma gottoken_digest_accept:
  assumes "token state = None" and "proto \<noteq> AUTH_PROTO_TOKEN" and "alg = AUTH_ALG_HMAC_MD5"
    and "malloc_mm sys" and Q: "mp = 4 \<longrightarrow> 28 \<le> length Q"
  shows "gottoken sys heap state
           (Q @ hmac_buf (hmac_md5 sys (zeroed_header mp (Q @ replicate 16 0 @ T)) (key (heap t))) @ T)
           mp proto alg rp t (length Q) 16 = finish heap state rp t"
proof -
  let ?h = "hmac_buf (hmac_md5 sys (zeroed_header mp (Q @ replicate 16 0 @ T)) (key (heap t)))"
  have mm: "memset (Q @ ?h @ T) (length Q) 0 16 = Q @ replicate 16 0 @ T"
    by (simp add: memset_app length_hmac_buf)
  from Q have g: "\<not> (mp = 4 \<and> length (Q @ ?h @ T) < off_giaddr + 4)"
    by (auto simp: off_giaddr_def)
  have zh: "(if mp = 4 then memset ((Q @ replicate 16 0 @ T)[off_hwopcount := 0]) off_giaddr 0 4
      else Q @ replicate 16 0 @ T) = zeroed_header mp (Q @ replicate 16 0 @ T)"
    by (simp add: zeroed_header_def)
  have cmp: "memcmp (drop (length Q) (Q @ ?h @ T)) ?h 16 = 0"
    by (simp add: memcmp_def length_hmac_buf)
  from assms(1-4) show ?thesis
    unfolding gottoken_def Let_def mm zh
    by (simp only: g cmp) (simp add: HMAC_LENGTH_def)
qed

lemma gottoken_token_accept:
  assumes "token state = None"
  shows "gottoken sys heap state (Q @ key (heap t) @ T) mp AUTH_PROTO_TOKEN alg rp t (length Q)
           (length (key (heap t))) = finish heap state rp t"
  using assms by (simp add: gottoken_def memcmp_def)

lemma to_int_0: "to_int 0 = 0"
  by (simp add: to_int_def)

lemma encode_header_exact:
  assumes "11 \<le> length B"
  shows "memcpy ((A @ B)[length A := x, length A + 1 := y, length A + 2 := z]) (length A + 3) (store64 w)
     = (A @ [x, y, z] @ store64 w) @ drop 11 B"
proof -
  from assms have b3: "3 \<le> length B" by simp
  have l3: "length (A @ [x, y, z]) = length A + 3" by simp
  have "memcpy ((A @ [x, y, z]) @ drop 3 B) (length (A @ [x, y, z])) (store64 w) =
      (A @ [x, y, z]) @ store64 w @ drop (length (store64 w)) (drop 3 B)"
    by (rule memcpy_app)
  then have "memcpy (A @ [x, y, z] @ drop 3 B) (length A + 3) (store64 w) =
      (A @ [x, y, z] @ store64 w) @ drop 11 B"
    by (simp only: l3 length_store64 append_assoc drop_drop) simp
  then show ?thesis
    by (simp only: update3_app [OF b3])
qed

lemma encode_emit_token_exact:
  assumes proto: "protocol a = AUTH_PROTO_TOKEN"
    and size: "unat dlen = 11 + length (key (heap t))"
    and fit: "unat dlen \<le> length B"
  shows "encode_emit sys io rst heap a (Some t) (A @ B) mp mt (int (length A)) dlen =
    (Inr 0,
     (A @ [protocol a, algorithm a, rdm a] @ store64 (htonll (fst (get_next_rdm_monotonic io rst))))
       @ key (heap t) @ drop (unat dlen) B,
     snd (get_next_rdm_monotonic io rst))"
proof -
  let ?r = "fst (get_next_rdm_monotonic io rst)"
  let ?P = "A @ [protocol a, algorithm a, rdm a] @ store64 (htonll ?r)"
  from size fit have b11: "11 \<le> length B" by simp
  have lp: "length ?P = length A + 11" by (simp add: length_store64)
  have hdr: "memcpy ((A @ B)[length A := protocol a, length A + 1 := algorithm a, length A + 2 := rdm a])
      (length A + 3) (store64 (htonll ?r)) = ?P @ drop 11 B"
    using encode_header_exact [OF b11] by simp
  have dk: "drop (length (key (heap t))) (drop 11 B) = drop (unat dlen) B"
    by (simp add: size add.commute)
  have key: "memcpy (?P @ drop 11 B) (length A + 11) (key (heap t)) =
      ?P @ key (heap t) @ drop (unat dlen) B"
    using memcpy_app [of ?P "drop 11 B" "key (heap t)"] by (simp only: lp dk)
  from size fit have g: "\<not> unat dlen < 1 + 1 + 1 + 8"
    "\<not> (int (length A) < 0 \<or> int (length A) > int (length (A @ B)) \<or>
        int (length A) + int (unat dlen) > int (length (A @ B)))"
    by simp_all
  have d: "nat (int (length A)) = length A" "length A + 3 + 8 = length A + 11" by simp_all
  from proto have ptrue: "(protocol a = AUTH_PROTO_TOKEN) = True" by simp
  from size have k: "\<not> unat dlen - (1 + 1 + 1 + 8) < length (key (heap t))"
    "unat dlen - (1 + 1 + 1 + 8) - length (key (heap t)) = 0"
    by simp_all
  show ?thesis
    unfolding encode_emit_def Let_def split_beta
    by (simp only: g if_False d hdr ptrue if_True option.case k key to_int_0)
qed

lemma encode_mac_exact:
  assumes proto: "protocol a = AUTH_PROTO_DELAYED \<or> protocol a = AUTH_PROTO_DELAYEDREALM"
    and body: "body = (if protocol a = AUTH_PROTO_DELAYEDREALM then realm tk else [])
        @ store32 (htonl (secretid tk))"
    and fit: "length body + 16 \<le> length R"
    and P: "mp = 4 \<longrightarrow> 28 \<le> length P"
  shows "encode_mac sys rst a tk (P @ R) mp (length P) (length body + 16) =
    (Inr 0,
     (P @ body) @ hmac_buf (hmac_md5 sys
        (zeroed_header mp ((P @ body) @ replicate 16 0 @ drop (length body + 16) R)) (key tk))
       @ drop (length body + 16) R,
     rst)"
proof -
  have ne: "AUTH_PROTO_DELAYED \<noteq> AUTH_PROTO_DELAYEDREALM"
    by (simp add: AUTH_PROTO_DELAYED_def AUTH_PROTO_DELAYEDREALM_def)
  let ?sb = "store32 (htonl (secretid tk))"
  let ?R' = "drop (length body) R"
  from fit have r16: "16 \<le> length ?R'" by simp
  from P have Q: "mp = 4 \<longrightarrow> 28 \<le> length (P @ body)" by auto
  have dd: "drop 16 ?R' = drop (length body + 16) R" by (simp add: add.commute)
  note dg = encode_digest_exact [OF r16 Q, of sys rst tk, unfolded dd]
  show ?thesis
  proof (cases "protocol a = AUTH_PROTO_DELAYEDREALM")
    case True
    with body have b: "body = realm tk @ ?sb" by simp
    have w1: "memcpy (P @ R) (length P) (realm tk) = (P @ realm tk) @ drop (length (realm tk)) R"
      by (simp add: memcpy_app)
    have w2: "memcpy ((P @ realm tk) @ drop (length (realm tk)) R) (length P + length (realm tk)) ?sb
        = (P @ body) @ ?R'"
      using memcpy_app [of "P @ realm tk" "drop (length (realm tk)) R" ?sb]
      by (simp add: b length_store32 add.commute)
    have l: "length body + 16 - length (realm tk) - 4 = 16" "length P + length (realm tk) + 4 = length (P @ body)"
      "\<not> length body + 16 < length (realm tk)" "\<not> length body + 16 - length (realm tk) < 4"
      by (simp_all add: b length_store32)
    show ?thesis
      unfolding encode_mac_def Let_def
      by (simp only: True simp_thms if_True if_False l split_conv w1 w2 dg)
  next
    case False
    with proto have pd: "protocol a = AUTH_PROTO_DELAYED" by simp
    from False body have b: "body = ?sb" by simp
    have w2: "memcpy (P @ R) (length P) ?sb = (P @ body) @ ?R'"
      using memcpy_app [of P R ?sb] by (simp add: b)
    have l: "length body + 16 - 4 = 16" "length P + 4 = length (P @ body)"
      "\<not> length body + 16 < 4"
      by (simp_all add: b length_store32)
    show ?thesis
      unfolding encode_mac_def Let_def
      by (simp only: pd ne simp_thms if_True if_False l split_conv w2 dg)
  qed
qed

lemma encode_emit_mac_exact:
  assumes proto: "protocol a = AUTH_PROTO_DELAYED \<or> protocol a = AUTH_PROTO_DELAYEDREALM"
    and cd: "carries_digest mp mt"
    and body: "body = (if protocol a = AUTH_PROTO_DELAYEDREALM then realm (heap t) else [])
        @ store32 (htonl (secretid (heap t)))"
    and size: "unat dlen = 11 + (length body + 16)"
    and fit: "unat dlen \<le> length B"
    and v4: "mp = 4 \<longrightarrow> 28 \<le> length A"
  shows "encode_emit sys io rst heap a (Some t) (A @ B) mp mt (int (length A)) dlen =
    (Inr 0,
     ((A @ [protocol a, algorithm a, rdm a] @ store64 (htonll (fst (get_next_rdm_monotonic io rst))))
        @ body)
       @ hmac_buf (hmac_md5 sys (zeroed_header mp
           (((A @ [protocol a, algorithm a, rdm a] @ store64 (htonll (fst (get_next_rdm_monotonic io rst))))
              @ body) @ replicate 16 0 @ drop (unat dlen) B)) (key (heap t)))
       @ drop (unat dlen) B,
     snd (get_next_rdm_monotonic io rst))"
proof -
  let ?r = "fst (get_next_rdm_monotonic io rst)"
  let ?P = "A @ [protocol a, algorithm a, rdm a] @ store64 (htonll ?r)"
  from size fit have b11: "11 \<le> length B" by simp
  have lp: "length ?P = length A + 11" by (simp add: length_store64)
  have hdr: "memcpy ((A @ B)[length A := protocol a, length A + 1 := algorithm a, length A + 2 := rdm a])
      (length A + 3) (store64 (htonll ?r)) = ?P @ drop 11 B"
    using encode_header_exact [OF b11] by simp
  from size fit have g: "\<not> unat dlen < 1 + 1 + 1 + 8"
    "\<not> (int (length A) < 0 \<or> int (length A) > int (length (A @ B)) \<or>
        int (length A) + int (unat dlen) > int (length (A @ B)))"
    by simp_all
  have d: "nat (int (length A)) = length A" "length A + 3 + 8 = length A + 11" by simp_all
  from proto have nt: "(protocol a = AUTH_PROTO_TOKEN) = False"
    by (auto simp: AUTH_PROTO_TOKEN_def AUTH_PROTO_DELAYED_def AUTH_PROTO_DELAYEDREALM_def)
  from cd have ncd: "((mp = 4 \<and> (mt = DHCP_DISCOVER \<or> mt = DHCP_INFORM)) \<or>
      (mp = 6 \<and> (mt = DHCP6_SOLICIT \<or> mt = DHCP6_INFORMATION_REQ))) = False"
    by (simp add: carries_digest_def)
  from size have k: "unat dlen - (1 + 1 + 1 + 8) = length body + 16" by simp
  from size fit have fit': "length body + 16 \<le> length (drop 11 B)" by simp
  from v4 have P: "mp = 4 \<longrightarrow> 28 \<le> length ?P" by auto
  have dd: "drop (length body + 16) (drop 11 B) = drop (unat dlen) B"
    by (simp add: size add.commute)
  note mac = encode_mac_exact [OF proto body fit' P, of sys "snd (get_next_rdm_monotonic io rst)",
      unfolded dd lp]
  show ?thesis
    unfolding encode_emit_def Let_def split_beta
    by (simp only: g if_False d hdr nt ncd option.case k mac)
qed

lemma option_bytes:
  assumes "length rb = 8"
  shows "((A @ [x, y, z] @ rb) @ rest) ! length A = x"
    and "((A @ [x, y, z] @ rb) @ rest) ! (length A + 1) = y"
    and "((A @ [x, y, z] @ rb) @ rest) ! (length A + 2) = z"
    and "take 8 (drop (length A + 3) ((A @ [x, y, z] @ rb) @ rest)) = rb"
  using assms by (simp_all add: nth_append)

lemma validate_encoded_header:
  assumes send: "options a AND DHCPCD_AUTH_SEND \<noteq> 0"
    and fresh: "token state = None"
    and n: "11 \<le> unat dlen"
    and len: "unat dlen \<le> 11 + length rest"
  shows "dhcp_auth_validate sys heap state a
      ((A @ [protocol a, algorithm a, rdm a] @ store64 (htonll r)) @ rest) mp mt (int (length A)) dlen =
    validate_protocol sys heap state a
      ((A @ [protocol a, algorithm a, rdm a] @ store64 (htonll r)) @ rest) mp mt
      (protocol a) (algorithm a) r (length A + 11) (unat dlen - 11)"
proof -
  let ?m = "(A @ [protocol a, algorithm a, rdm a] @ store64 (htonll r)) @ rest"
  note ob = option_bytes [OF length_store64, of A "protocol a" "algorithm a" "rdm a" "htonll r" rest]
  have d: "nat (int (length A)) = length A" by simp
  have rv: "replay_value ?m (int (length A)) = r"
    unfolding replay_value_def d ob by (simp only: load64_store64 ntohll_htonll)
  from len have "length A + unat dlen \<le> length ?m"
    by (simp add: length_store64)
  then have "int (length A) + int (unat dlen) \<le> int (length ?m)"
    by linarith
  with send fresh n have "passes_header state a ?m (int (length A)) dlen"
    unfolding passes_header_def d ob by simp
  from validate_header [OF this, of sys heap mp mt] show ?thesis
    unfolding d ob rv .
qed

lemma validate_token_exact:
  assumes send: "options a AND DHCPCD_AUTH_SEND \<noteq> 0"
    and fresh: "token state = None"
    and proto: "protocol a = AUTH_PROTO_TOKEN"
    and size: "unat dlen = 11 + length (key (heap t))"
    and res: "resolves_to heap a t"
    and exp: "unexpired sys (heap t)"
  shows "dhcp_auth_validate sys heap state a
      ((A @ [protocol a, algorithm a, rdm a] @ store64 (htonll r)) @ key (heap t) @ S)
      mp mt (int (length A)) dlen = finish heap state r t"
proof -
  let ?P = "A @ [protocol a, algorithm a, rdm a] @ store64 (htonll r)"
  have lp: "length ?P = length A + 11" by (simp add: length_store64)
  from size have n: "11 \<le> unat dlen" and len: "unat dlen \<le> 11 + length (key (heap t) @ S)"
    and k: "unat dlen - 11 = length (key (heap t))"
    by simp_all
  from res proto have f: "find (\<lambda>x. token_matches (heap x) 0 [] 0) (tokens a) = Some t"
    by (simp add: resolves_to_def proto_distinct)
  from exp have e: "\<not> (expire (heap t) \<noteq> 0 \<and> time_now sys = - 1)"
    "\<not> (expire (heap t) \<noteq> 0 \<and> expire (heap t) < time_now sys)"
    by (auto simp: unexpired_def)
  have "validate_protocol sys heap state a (?P @ key (heap t) @ S) mp mt (protocol a) (algorithm a) r
      (length A + 11) (unat dlen - 11) =
    gottoken sys heap state (?P @ key (heap t) @ S) mp AUTH_PROTO_TOKEN (algorithm a) r t
      (length ?P) (length (key (heap t)))"
    unfolding validate_protocol_def find_token_def Let_def proto k
    by (simp only: simp_thms if_True ntohl_0 f option.case e if_False) (simp add: length_store64)
  also have "\<dots> = finish heap state r t"
    by (rule gottoken_token_accept [OF fresh])
  finally show ?thesis
    unfolding validate_encoded_header [OF send fresh n len] .
qed

lemma find_token_accept:
  assumes f: "find (\<lambda>x. token_matches (heap x) sid rlm rlen) (tokens a) = Some t"
    and exp: "unexpired sys (heap t)"
  shows "find_token sys heap state a m mp proto alg rp (htonl sid) rlm rlen d n =
    gottoken sys heap state m mp proto alg rp t d n"
proof -
  from exp have e: "\<not> (expire (heap t) \<noteq> 0 \<and> time_now sys = - 1)"
    "\<not> (expire (heap t) \<noteq> 0 \<and> expire (heap t) < time_now sys)"
    by (auto simp: unexpired_def)
  show ?thesis
    unfolding find_token_def Let_def ntohl_htonl
    by (simp only: f option.case e if_False)
qed

lemma validate_mac_exact:
  assumes send: "options a AND DHCPCD_AUTH_SEND \<noteq> 0"
    and fresh: "token state = None"
    and proto: "protocol a = AUTH_PROTO_DELAYED \<or> protocol a = AUTH_PROTO_DELAYEDREALM"
    and alg: "algorithm a = AUTH_ALG_HMAC_MD5"
    and body: "body = (if protocol a = AUTH_PROTO_DELAYEDREALM then realm (heap t) else [])
        @ store32 (htonl (secretid (heap t)))"
    and size: "unat dlen = 11 + (length body + 16)"
    and res: "resolves_to heap a t"
    and exp: "unexpired sys (heap t)"
    and mal: "malloc_mm sys"
    and v4: "mp = 4 \<longrightarrow> 28 \<le> length A"
  shows "dhcp_auth_validate sys heap state a
      (((A @ [protocol a, algorithm a, rdm a] @ store64 (htonll r)) @ body)
        @ hmac_buf (hmac_md5 sys (zeroed_header mp
            (((A @ [protocol a, algorithm a, rdm a] @ store64 (htonll r)) @ body)
               @ replicate 16 0 @ S)) (key (heap t)))
        @ S)
      mp mt (int (length A)) dlen = finish heap state r t"
proof -
  let ?P = "A @ [protocol a, algorithm a, rdm a] @ store64 (htonll r)"
  let ?h = "hmac_buf (hmac_md5 sys (zeroed_header mp ((?P @ body) @ replicate 16 0 @ S)) (key (heap t)))"
  let ?m = "(?P @ body) @ ?h @ S"
  let ?sb = "store32 (htonl (secretid (heap t)))"
  have lp: "length ?P = length A + 11" by (simp add: length_store64)
  have m: "?m = ?P @ (body @ ?h @ S)" by simp
  from size have n: "11 \<le> unat dlen"
    and len: "unat dlen \<le> 11 + length (body @ ?h @ S)"
    and k: "unat dlen - 11 = length body + 16"
    by (simp_all add: length_hmac_buf)
  from proto have nt: "protocol a \<noteq> AUTH_PROTO_TOKEN"
    using proto_distinct by auto
  from v4 have Q: "mp = 4 \<longrightarrow> 28 \<le> length (?P @ body)" by auto
  note acc = gottoken_digest_accept [OF fresh nt alg mal Q, of heap S t r]
  have "validate_protocol sys heap state a ?m mp mt (protocol a) (algorithm a) r
      (length A + 11) (unat dlen - 11) = finish heap state r t"
  proof (cases "protocol a = AUTH_PROTO_DELAYEDREALM")
    case True
    with body have b: "body = realm (heap t) @ ?sb" by simp
    from res True have f: "find (\<lambda>x. token_matches (heap x) (secretid (heap t)) (realm (heap t))
        (length (realm (heap t)))) (tokens a) = Some t"
      by (simp add: resolves_to_def proto_distinct)
    have rd: "take (length (realm (heap t))) (drop (length A + 11) ?m) = realm (heap t)"
      unfolding b by (simp add: length_store64)
    have sd: "take 4 (drop (length A + 11 + length (realm (heap t))) ?m) = ?sb"
      using take_drop_app [of "?P @ realm (heap t)" "length A + 11 + length (realm (heap t))" ?sb 4 "?h @ S"]
      unfolding b by (simp add: length_store32 length_store64)
    have lq: "length A + 11 + length (realm (heap t)) + 4 = length (?P @ body)"
      by (simp add: b length_store32 length_store64)
    have c: "\<not> length body + 16 < 4 + HMAC_LENGTH" "length body + 16 - (4 + HMAC_LENGTH) = length (realm (heap t))"
      "length body + 16 - length (realm (heap t)) - 4 = 16"
      by (simp_all add: b HMAC_LENGTH_def length_store32)
    from True have pe: "(protocol a = AUTH_PROTO_TOKEN) = False" "(protocol a = AUTH_PROTO_DELAYED) = False"
      "(protocol a = AUTH_PROTO_DELAYEDREALM) = True"
      by (simp_all add: proto_distinct)
    show ?thesis
      unfolding validate_protocol_def Let_def k
      by (simp only: pe if_False if_True c rd sd load32_store32
          find_token_accept [OF f exp] lq acc)
  next
    case False
    with proto have pd: "protocol a = AUTH_PROTO_DELAYED" by simp
    from False body have b: "body = ?sb" by simp
    from res pd have f: "find (\<lambda>x. token_matches (heap x) (secretid (heap t)) [] 0) (tokens a) = Some t"
      by (simp add: resolves_to_def proto_distinct)
    have sd: "take 4 (drop (length A + 11) ?m) = ?sb"
      unfolding b by (simp add: length_store32 length_store64)
    have lq: "length A + 11 + 4 = length (?P @ body)"
      by (simp add: b length_store32 length_store64)
    have c: "\<not> length body + 16 < 4 + HMAC_LENGTH" "length body + 16 - 4 = 16"
      by (simp_all add: b HMAC_LENGTH_def length_store32)
    from pd have pe: "(protocol a = AUTH_PROTO_TOKEN) = False" "(protocol a = AUTH_PROTO_DELAYED) = True"
      by (simp_all add: proto_distinct)
    show ?thesis
      unfolding validate_protocol_def Let_def k
      by (simp only: pe if_False if_True c sd load32_store32
          find_token_accept [OF f exp] lq acc)
  qed
  then show ?thesis
    unfolding m validate_encoded_header [OF send fresh n len] .
qed


text \<open>
  C2, as amended. Take a policy with the \<^verbatim>\<open>SEND\<close> flag, one of the protocols
  \<^verbatim>\<open>TOKEN\<close>, \<^verbatim>\<open>DELAYED\<close>, \<^verbatim>\<open>DELAYED_REALM\<close>, the algorithm \<^verbatim>\<open>HMAC_MD5\<close>
  and the replay method \<^verbatim>\<open>MONOTONIC\<close>; a token that is the first of the policy's
  tokens with the secret id and realm the option carries, and that has not expired; an
  option slice of exactly the size of the size query, inside the message and, in a DHCPv4
  message under a digest protocol, behind \<^verbatim>\<open>giaddr\<close>; a message type that carries a
  digest unless the protocol is \<^verbatim>\<open>TOKEN\<close>; and an allocation of the working copy
  that succeeds. Then the encoder returns 0, and the validator, on a session without a
  pinned token, returns that token for the message the encoder left, pins it, and sets
  the session's replay value to the value the replay counter gave the encoder.
\<close>

theorem C2_round_trip:
  assumes proto: "protocol a = AUTH_PROTO_TOKEN \<or> protocol a = AUTH_PROTO_DELAYED \<or>
      protocol a = AUTH_PROTO_DELAYEDREALM"
    and alg: "algorithm a = AUTH_ALG_HMAC_MD5"
    and rdm: "rdm a = AUTH_RDM_MONOTONIC"
    and send: "options a AND DHCPCD_AUTH_SEND \<noteq> 0"
    and mt: "protocol a = AUTH_PROTO_TOKEN \<or> carries_digest mp mt"
    and size: "unat dlen = spec_option_size a (heap t)"
    and rng: "0 \<le> data" "data + int (unat dlen) \<le> int (length m)"
    and v4: "protocol a = AUTH_PROTO_TOKEN \<or> mp \<noteq> 4 \<or> 28 \<le> data"
    and res: "resolves_to heap a t"
    and exp: "unexpired sys (heap t)"
    and mal: "protocol a = AUTH_PROTO_TOKEN \<or> malloc_mm sys"
    and fresh: "token state = None"
  shows "fst (dhcp_auth_encode sys io rst heap a (Some t) m mp mt (Some data) dlen) = Inr 0 \<and>
    dhcp_auth_validate sys heap state a
      (fst (snd (dhcp_auth_encode sys io rst heap a (Some t) m mp mt (Some data) dlen)))
      mp mt' data dlen =
    (Inr t, state\<lparr>replay := fst (get_next_rdm_monotonic io rst), token := Some t\<rparr>, heap)"
proof -
  let ?A = "take (nat data) m" and ?B = "drop (nat data) m"
  let ?r = "fst (get_next_rdm_monotonic io rst)"
  from rng have dl: "nat data + unat dlen \<le> length m" by linarith
  then have la: "length ?A = nat data" by simp
  with rng have da: "data = int (length ?A)" by simp
  have m: "m = ?A @ ?B" by simp
  from dl have fit: "unat dlen \<le> length ?B" by simp
  have enc: "dhcp_auth_encode sys io rst heap a (Some t) m mp mt (Some data) dlen =
      encode_emit sys io rst heap a (Some t) (?A @ ?B) mp mt (int (length ?A)) dlen"
    using proto alg rdm unfolding da [symmetric]
    by (auto simp: dhcp_auth_encode_def encode_token_def)
  show ?thesis
  proof (cases "protocol a = AUTH_PROTO_TOKEN")
    case True
    with size have sz: "unat dlen = 11 + length (key (heap t))"
      by (simp add: spec_option_size_def)
    note e = encode_emit_token_exact [where heap = heap and t = t and A = ?A and sys = sys
        and io = io and rst = rst and mp = mp and mt = mt, OF True sz fit]
    note v = validate_token_exact [where heap = heap and t = t and A = ?A and sys = sys and r = ?r
        and S = "drop (unat dlen) ?B" and mp = mp and mt = mt', OF send fresh True sz res exp]
    note E = trans [OF enc e]
    show ?thesis
      unfolding E fst_conv snd_conv v [folded da] finish_def by simp
  next
    case False
    with proto mt v4 mal have p: "protocol a = AUTH_PROTO_DELAYED \<or> protocol a = AUTH_PROTO_DELAYEDREALM"
      and cd: "carries_digest mp mt" and mm: "malloc_mm sys" and h4: "mp = 4 \<longrightarrow> 28 \<le> length ?A"
      using la by auto
    define body where "body = (if protocol a = AUTH_PROTO_DELAYEDREALM then realm (heap t) else [])
        @ store32 (htonl (secretid (heap t)))"
    from False p size have sz: "unat dlen = 11 + (length body + 16)"
      by (auto simp: spec_option_size_def body_def length_store32 proto_distinct)
    note e = encode_emit_mac_exact [where heap = heap and t = t and A = ?A and sys = sys
        and io = io and rst = rst, OF p cd body_def sz fit h4]
    note v = validate_mac_exact [where heap = heap and t = t and A = ?A and sys = sys and r = ?r
        and S = "drop (unat dlen) ?B" and mt = mt', OF send fresh p alg body_def sz res exp mm h4]
    note E = trans [OF enc e]
    show ?thesis
      unfolding E fst_conv snd_conv v [folded da] finish_def by simp
  qed
qed

theorem C2_round_trip_witness:
  "fst (dhcp_auth_encode ex_sys io_ok (rdm_start None) ex_heap ex_policy (Some 1)
          (ex_message4 (replicate 16 0)) 4 1 (Some 240) 16) = Inr 0 \<and>
   dhcp_auth_validate ex_sys ex_heap ex_fresh ex_policy
      (fst (snd (dhcp_auth_encode ex_sys io_ok (rdm_start None) ex_heap ex_policy (Some 1)
         (ex_message4 (replicate 16 0)) 4 1 (Some 240) 16))) 4 5 240 16 =
     (Inr 1, \<lparr>replay = 1, token = Some 1, reconf = None\<rparr>, ex_heap) \<and>
   fst (dhcp_auth_encode ex_sys io_ok (rdm_start None) ex_heap2 ex_delayed (Some 2)
          (ex_message4 (replicate 31 0)) 4 3 (Some 240) 31) = Inr 0 \<and>
   dhcp_auth_validate ex_sys ex_heap2 ex_fresh ex_delayed
      (fst (snd (dhcp_auth_encode ex_sys io_ok (rdm_start None) ex_heap2 ex_delayed (Some 2)
         (ex_message4 (replicate 31 0)) 4 3 (Some 240) 31))) 4 5 240 31 =
     (Inr 2, \<lparr>replay = 1, token = Some 2, reconf = None\<rparr>, ex_heap2)"
proof -
  have r: "fst (get_next_rdm_monotonic io_ok (rdm_start None)) = 1"
    by code_simp
  have st: "ex_fresh\<lparr>replay := 1, token := Some t\<rparr> = \<lparr>replay = 1, token = Some t, reconf = None\<rparr>" for t
    by (simp add: ex_fresh_def)
  have fresh: "token ex_fresh = None" by (simp add: ex_fresh_def)
  have exp1: "unexpired ex_sys (ex_heap 1)" and exp2: "unexpired ex_sys (ex_heap2 2)"
    by code_simp+
  have mal: "protocol ex_policy = AUTH_PROTO_TOKEN \<or> malloc_mm ex_sys"
    "protocol ex_delayed = AUTH_PROTO_TOKEN \<or> malloc_mm ex_sys"
    by code_simp+
  have p1: "protocol ex_policy = AUTH_PROTO_TOKEN \<or> protocol ex_policy = AUTH_PROTO_DELAYED \<or>
      protocol ex_policy = AUTH_PROTO_DELAYEDREALM"
    and a1: "algorithm ex_policy = AUTH_ALG_HMAC_MD5" and r1: "rdm ex_policy = AUTH_RDM_MONOTONIC"
    and s1: "options ex_policy AND DHCPCD_AUTH_SEND \<noteq> 0"
    and m1: "protocol ex_policy = AUTH_PROTO_TOKEN \<or> carries_digest 4 1"
    and z1: "unat (16 :: 32 word) = spec_option_size ex_policy (ex_heap 1)"
    and g1: "(0 :: int) \<le> 240" "240 + int (unat (16 :: 32 word)) \<le> int (length (ex_message4 (replicate 16 0)))"
    and v1: "protocol ex_policy = AUTH_PROTO_TOKEN \<or> (4 :: int) \<noteq> 4 \<or> (28 :: int) \<le> 240"
    and res1: "resolves_to ex_heap ex_policy 1"
    by code_simp+
  have p2: "protocol ex_delayed = AUTH_PROTO_TOKEN \<or> protocol ex_delayed = AUTH_PROTO_DELAYED \<or>
      protocol ex_delayed = AUTH_PROTO_DELAYEDREALM"
    and a2: "algorithm ex_delayed = AUTH_ALG_HMAC_MD5" and r2: "rdm ex_delayed = AUTH_RDM_MONOTONIC"
    and s2: "options ex_delayed AND DHCPCD_AUTH_SEND \<noteq> 0"
    and m2: "protocol ex_delayed = AUTH_PROTO_TOKEN \<or> carries_digest 4 3"
    and z2: "unat (31 :: 32 word) = spec_option_size ex_delayed (ex_heap2 2)"
    and g2: "(0 :: int) \<le> 240" "240 + int (unat (31 :: 32 word)) \<le> int (length (ex_message4 (replicate 31 0)))"
    and v2: "protocol ex_delayed = AUTH_PROTO_TOKEN \<or> (4 :: int) \<noteq> 4 \<or> (28 :: int) \<le> 240"
    and res2: "resolves_to ex_heap2 ex_delayed 2"
    by code_simp+
  note t1 = C2_round_trip [OF p1 a1 r1 s1 m1 z1 g1 v1 res1 exp1 mal(1) fresh,
      of io_ok "rdm_start None" 5, unfolded r st]
  note t2 = C2_round_trip [OF p2 a2 r2 s2 m2 z2 g2 v2 res2 exp2 mal(2) fresh,
      of io_ok "rdm_start None" 5, unfolded r st]
  from t1 t2 show ?thesis by (intro conjI) (erule conjunct1 conjunct2)+
qed

text \<open>
  The claim as it stands, for every policy, token and message of the matrix, fails on
  three inputs. Under \<^verbatim>\<open>TOKEN\<close>, a token other than the policy's first with secret id
  0 and no realm is encoded, and the validator compares its key with that of the first:
  denied. A policy without the \<^verbatim>\<open>SEND\<close> flag encodes, and the validator accepts only
  reconfigure keys: malformed. A token that is passed to the encoder after its expiry is
  encoded, and the validator finds it expired.
\<close>

theorem C2_round_trip_counterexample:
  "fst (dhcp_auth_encode ex_sys io_ok (rdm_start None) ex_heap2 ex_policy_two (Some 2)
          (ex_message6 (replicate 16 0)) 6 3 (Some 8) 16) = Inr 0 \<and>
   fst (dhcp_auth_validate ex_sys ex_heap2 ex_fresh ex_policy_two
          (fst (snd (dhcp_auth_encode ex_sys io_ok (rdm_start None) ex_heap2 ex_policy_two (Some 2)
             (ex_message6 (replicate 16 0)) 6 3 (Some 8) 16))) 6 7 8 16) = Inl EPERM \<and>
   fst (dhcp_auth_encode ex_sys io_ok (rdm_start None) ex_heap ex_policy_no_send (Some 1)
          (ex_message6 (replicate 16 0)) 6 3 (Some 8) 16) = Inr 0 \<and>
   fst (dhcp_auth_validate ex_sys ex_heap ex_fresh ex_policy_no_send
          (fst (snd (dhcp_auth_encode ex_sys io_ok (rdm_start None) ex_heap ex_policy_no_send (Some 1)
             (ex_message6 (replicate 16 0)) 6 3 (Some 8) 16))) 6 7 8 16) = Inl EINVAL \<and>
   fst (dhcp_auth_encode ex_sys io_ok (rdm_start None) ex_heap_expired ex_policy (Some 1)
          (ex_message6 (replicate 16 0)) 6 3 (Some 8) 16) = Inr 0 \<and>
   fst (dhcp_auth_validate ex_sys ex_heap_expired ex_fresh ex_policy
          (fst (snd (dhcp_auth_encode ex_sys io_ok (rdm_start None) ex_heap_expired ex_policy (Some 1)
             (ex_message6 (replicate 16 0)) 6 3 (Some 8) 16))) 6 7 8 16) = Inl EFAULT"
  by code_simp

section \<open>The fallback counter is not seeded from the file\<close>

text \<open>
  C3. The claim: every value \<^verbatim>\<open>get_next_rdm_monotonic\<close> returns is strictly greater
  than every value it returned before in the process. When \<^verbatim>\<open>fopen\<close> fails the
  source returns \<^verbatim>\<open>++last_rdm\<close>, and \<^verbatim>\<open>last_rdm\<close> is only ever set on a failed
  write. A process that finds 5 in the file returns 6; when the next \<^verbatim>\<open>fopen\<close>
  fails, it returns 1.
\<close>

theorem C3_fallback_returns_smaller_value:
  "fst (get_next_rdm_monotonic io_ok (rdm_start (Some (ex_file CHR ''5'')))) = 6 \<and>
   fst (get_next_rdm_monotonic io_no_open
          (snd (get_next_rdm_monotonic io_ok (rdm_start (Some (ex_file CHR ''5'')))))) = 1"
  by code_simp

theorem C3_fallback_not_increasing:
  "\<not> fst (get_next_rdm_monotonic io_ok (rdm_start (Some (ex_file CHR ''5''))))
     < fst (get_next_rdm_monotonic io_no_open
         (snd (get_next_rdm_monotonic io_ok (rdm_start (Some (ex_file CHR ''5''))))))"
  using C3_fallback_returns_smaller_value by simp

section \<open>The counter is printed in decimal after the hexadecimal prefix\<close>

text \<open>
  C4. The claim: after a successful update the file holds \<^verbatim>\<open>0x\<close>, the counter as 16
  hexadecimal digits, and a newline. The source prints with \<^verbatim>\<open>"0x%016" PRIu64\<close>, which
  is decimal. From a file that holds 9 the call returns 10 and leaves
  \<^verbatim>\<open>0x0000000000000010\<close> in the file, where the claim has \<^verbatim>\<open>0x000000000000000a\<close>;
  read back with \<^verbatim>\<open>strtoull(line, &ep, 0)\<close> this is 16, so the next call returns 17.
\<close>

theorem C4_file_holds_decimal_digits:
  "get_next_rdm_monotonic io_ok (rdm_start (Some (ex_file CHR ''9''))) =
     (10, rdm_start (Some (''0x0000000000000010'' @ [CHR 0x0A]))) \<and>
   fst (get_next_rdm_monotonic io_ok (rdm_start (Some (''0x0000000000000010'' @ [CHR 0x0A])))) = 17"
  by code_simp

theorem C4_file_not_hexadecimal:
  "rdm_file (snd (get_next_rdm_monotonic io_ok (rdm_start (Some (ex_file CHR ''9'')))))
     \<noteq> Some (''0x000000000000000a'' @ [CHR 0x0A])"
  using C4_file_holds_decimal_digits by (simp add: rdm_start_def)


section \<open>Errors leave the session as it was\<close>

text \<open>
  C5. Whenever \<^verbatim>\<open>dhcp_auth_validate\<close> returns an error, the session passed in
  (\<^verbatim>\<open>state.token\<close>, \<^verbatim>\<open>state.replay\<close>, \<^verbatim>\<open>state.reconf\<close>) and the stored tokens
  are exactly what they were before the call.
\<close>

theorem C5_error_leaves_state:
  assumes "fst (dhcp_auth_validate sys heap state a m mp mt data dlen) = Inl e"
  shows "snd (dhcp_auth_validate sys heap state a m mp mt data dlen) = (state, heap)"
  using assms validate_cases [of sys heap state a m mp mt data dlen]
    reconf_key_cases [of sys heap state m "nat data + 12"]
  by (auto simp: finish_def)

theorem C5_replayed_message_witness:
  "fst (dhcp_auth_validate ex_sys ex_heap (ex_pinned 3) ex_policy (ex_message6 (ex_option 3)) 6 7 8 16)
     = Inl EPERM \<and>
   fst (snd (dhcp_auth_validate ex_sys ex_heap (ex_pinned 3) ex_policy (ex_message6 (ex_option 3)) 6 7 8 16))
     = ex_pinned 3"
proof -
  have h: "fst (dhcp_auth_validate ex_sys ex_heap (ex_pinned 3) ex_policy
      (ex_message6 (ex_option 3)) 6 7 8 16) = Inl EPERM"
    by code_simp
  from C5_error_leaves_state [OF h] h show ?thesis by simp
qed

section \<open>The encoder copies the digest without testing the length that is left\<close>

lemma sint_digest_rest:
  assumes "n < 2 ^ 32" and "0 \<le> sint ((word_of_nat n :: 32 word) - word_of_nat HMAC_LENGTH)"
  shows "16 \<le> n"
proof (rule ccontr)
  assume "\<not> 16 \<le> n"
  then have n: "n < 16" by simp
  have "(word_of_nat n :: 32 word) - word_of_nat HMAC_LENGTH = word_of_int (int n - 16)"
    by (simp add: HMAC_LENGTH_def)
  then have "sint ((word_of_nat n :: 32 word) - word_of_nat HMAC_LENGTH) =
      (int n - 16 + 2 ^ 31) mod 2 ^ 32 - 2 ^ 31"
    by (simp only: int_word_sint) simp
  also from n have "\<dots> < 0" by simp
  finally show False using assms(2) by simp
qed

lemma encode_digest_frame:
  assumes res: "encode_digest sys rst tk m mp d n = (Inr r, m', rst')"
    and r: "0 \<le> r" and fit: "d + n \<le> length m" and n: "n < 2 ^ 32"
  shows "length m' = length m \<and> (\<forall>i<length m. i < d \<or> d + n \<le> i \<longrightarrow> m' ! i = m ! i)"
proof -
  from res r have "0 \<le> sint ((word_of_nat n :: 32 word) - word_of_nat HMAC_LENGTH)"
    by (auto simp: encode_digest_def Let_def split: if_splits)
  with n have n16: "16 \<le> n" by (rule sint_digest_rest)
  show ?thesis
  proof (cases "mp = 4")
    case False
    with res have m': "m' = memcpy (memset m d 0 n) d (hmac_buf (hmac_md5 sys (memset m d 0 n) (key tk)))"
      by (auto simp: encode_digest_def Let_def split: if_splits)
    from fit n16 show ?thesis
      unfolding m' by (simp add: length_memcpy length_memset nth_memcpy nth_memset length_hmac_buf)
  next
    case True
    let ?m1 = "memset m d 0 n"
    let ?m2 = "memset (?m1[off_hwopcount := 0]) off_giaddr 0 4"
    let ?m3 = "memcpy ?m2 d (hmac_buf (hmac_md5 sys ?m2 (key tk)))"
    from True res have len: "28 \<le> length m"
      and m': "m' = memcpy (?m3[off_hwopcount := ?m1 ! off_hwopcount]) off_giaddr (take 4 (drop off_giaddr ?m1))"
      using fit by (auto simp: encode_digest_def Let_def length_memset off_giaddr_def split: if_splits)
    from fit have l1: "length ?m1 = length m" by (simp add: length_memset)
    from len l1 have l2: "length ?m2 = length m" by (simp add: length_memset off_giaddr_def)
    from fit n16 l2 have l3: "length ?m3 = length m" by (simp add: length_memcpy length_hmac_buf)
    from len l3 have l4: "length m' = length m"
      unfolding m' by (simp add: length_memcpy off_giaddr_def l1)
    have "m' ! i = m ! i" if i: "i < length m" and out: "i < d \<or> d + n \<le> i" for i
    proof -
      from i out fit have a1: "?m1 ! i = m ! i" by (auto simp: nth_memset)
      show ?thesis
      proof (cases "24 \<le> i \<and> i < 28")
        case True
        with len l1 have "take 4 (drop 24 ?m1) ! (i - 24) = ?m1 ! i"
          by (intro nth_take_drop) simp_all
        with True len l1 l3 i have "m' ! i = ?m1 ! i"
          unfolding m' by (simp add: nth_memcpy off_giaddr_def)
        with a1 show ?thesis by simp
      next
        case False
        note nog = this
        show ?thesis
        proof (cases "i = 3")
          case True
          with len l1 l3 i have "m' ! i = ?m1 ! i"
            unfolding m' by (simp add: nth_memcpy off_giaddr_def off_hwopcount_def)
          with a1 show ?thesis by simp
        next
          case False
          with nog len l1 l3 i have "m' ! i = ?m3 ! i"
            unfolding m' by (auto simp: nth_memcpy off_giaddr_def off_hwopcount_def)
          also from i out fit n16 l2 have "\<dots> = ?m2 ! i"
            by (auto simp: nth_memcpy length_hmac_buf)
          also from False nog len l1 i have "\<dots> = ?m1 ! i"
            by (auto simp: nth_memset off_giaddr_def off_hwopcount_def)
          finally show ?thesis using a1 by simp
        qed
      qed
    qed
    with l4 show ?thesis by blast
  qed
qed

lemma encode_mac_frame:
  assumes res: "encode_mac sys rst a tk m mp d n = (Inr r, m', rst')"
    and r: "0 \<le> r" and fit: "d + n \<le> length m" and n: "n < 2 ^ 32"
  shows "length m' = length m \<and> (\<forall>i<length m. i < d \<or> d + n \<le> i \<longrightarrow> m' ! i = m ! i)"
proof -
  consider (realm) "protocol a = AUTH_PROTO_DELAYEDREALM"
    | (delayed) "protocol a \<noteq> AUTH_PROTO_DELAYEDREALM" "protocol a = AUTH_PROTO_DELAYED"
    | (other) "protocol a \<noteq> AUTH_PROTO_DELAYEDREALM" "protocol a \<noteq> AUTH_PROTO_DELAYED"
    by blast
  then show ?thesis
  proof cases
    case realm
    let ?rl = "length (realm tk)"
    let ?m1 = "memcpy m d (realm tk)"
    let ?m2 = "memcpy ?m1 (d + ?rl) (store32 (htonl (secretid tk)))"
    from realm res have a: "?rl \<le> n" and b: "4 \<le> n - ?rl"
      and dg: "encode_digest sys rst tk ?m2 mp (d + ?rl + 4) (n - ?rl - 4) = (Inr r, m', rst')"
      by (auto simp: encode_mac_def Let_def split: if_splits)
    from a fit have f1: "length ?m1 = length m \<and>
        (\<forall>i<length m. i < d \<or> d + n \<le> i \<longrightarrow> ?m1 ! i = m ! i)"
      by (intro memcpy_frame) simp_all
    from a b fit f1 have f2: "length ?m2 = length ?m1 \<and>
        (\<forall>i<length ?m1. i < d \<or> d + n \<le> i \<longrightarrow> ?m2 ! i = ?m1 ! i)"
      by (intro memcpy_frame) (simp_all add: length_store32)
    from a b fit f1 f2 n have "length m' = length ?m2 \<and>
        (\<forall>i<length ?m2. i < d + ?rl + 4 \<or> d + ?rl + 4 + (n - ?rl - 4) \<le> i \<longrightarrow> m' ! i = ?m2 ! i)"
      by (intro encode_digest_frame [OF dg r]) simp_all
    with a b f1 f2 show ?thesis by auto
  next
    case delayed
    let ?m2 = "memcpy m d (store32 (htonl (secretid tk)))"
    from delayed res have b: "4 \<le> n"
      and dg: "encode_digest sys rst tk ?m2 mp (d + 4) (n - 4) = (Inr r, m', rst')"
      by (auto simp: encode_mac_def Let_def split: if_splits)
    from b fit have f2: "length ?m2 = length m \<and>
        (\<forall>i<length m. i < d \<or> d + n \<le> i \<longrightarrow> ?m2 ! i = m ! i)"
      by (intro memcpy_frame) (simp_all add: length_store32)
    from b fit f2 n have "length m' = length ?m2 \<and>
        (\<forall>i<length ?m2. i < d + 4 \<or> d + 4 + (n - 4) \<le> i \<longrightarrow> m' ! i = ?m2 ! i)"
      by (intro encode_digest_frame [OF dg r]) simp_all
    with b f2 show ?thesis by auto
  next
    case other
    with res have dg: "encode_digest sys rst tk m mp d n = (Inr r, m', rst')"
      by (auto simp: encode_mac_def Let_def split: if_splits)
    from encode_digest_frame [OF dg r fit n] show ?thesis .
  qed
qed

lemma encode_emit_frame:
  assumes res: "encode_emit sys io rst heap a t m mp mt data dlen = (Inr r, m', rst')"
    and r: "0 \<le> r"
  shows "length m' = length m \<and>
    (\<forall>i<length m. int i < data \<or> data + int (unat dlen) \<le> int i \<longrightarrow> m' ! i = m ! i)"
proof -
  let ?n = "unat dlen"
  let ?d = "nat data"
  let ?rdm = "get_next_rdm_monotonic io rst"
  let ?m0 = "m[?d := protocol a, ?d + 1 := algorithm a, ?d + 2 := rdm a]"
  let ?m1 = "memcpy ?m0 (?d + 3) (store64 (htonll (fst ?rdm)))"
  have nn: "0 \<le> int ?n" by simp
  from res have n11: "11 \<le> ?n"
    by (auto simp: encode_emit_def Let_def split: if_splits)
  from res have rng: "0 \<le> data" "data + int ?n \<le> int (length m)"
    by (auto simp: encode_emit_def Let_def split: if_splits)
  from rng have fit: "?d + ?n \<le> length m" by linarith
  have n32: "?n - 11 < 2 ^ 32"
    using unsigned_less [of dlen, where 'a = nat] by simp
  from n11 fit have f1: "length ?m1 = length m \<and>
      (\<forall>i<length m. i < ?d \<or> ?d + ?n \<le> i \<longrightarrow> ?m1 ! i = m ! i)"
    by (auto simp: length_memcpy nth_memcpy length_store64)
  have conv: "i < ?d \<or> ?d + ?n \<le> i" if "int i < data \<or> data + int ?n \<le> int i" for i
    using that rng by linarith
  from n11 rng res have cases:
    "(\<exists>x. t = Some x \<and> length (key (heap x)) \<le> ?n - 11 \<and> m' = memcpy ?m1 (?d + 11) (key (heap x))) \<or>
     m' = ?m1 \<or>
     (\<exists>x. t = Some x \<and> encode_mac sys (snd ?rdm) a (heap x) ?m1 mp (?d + 11) (?n - 11) = (Inr r, m', rst'))"
    by (auto simp: encode_emit_def Let_def split_beta add.assoc split: if_splits option.splits)
  then consider
      (tok) x where "t = Some x" "length (key (heap x)) \<le> ?n - 11" "m' = memcpy ?m1 (?d + 11) (key (heap x))"
    | (hdr) "m' = ?m1"
    | (mac) x where "encode_mac sys (snd ?rdm) a (heap x) ?m1 mp (?d + 11) (?n - 11) = (Inr r, m', rst')"
    by blast
  then have fr: "length m' = length m \<and> (\<forall>i<length m. i < ?d \<or> ?d + ?n \<le> i \<longrightarrow> m' ! i = m ! i)"
  proof cases
    case tok
    from tok(2) n11 fit f1 have "length (memcpy ?m1 (?d + 11) (key (heap x))) = length ?m1 \<and>
        (\<forall>i<length ?m1. i < ?d \<or> ?d + ?n \<le> i \<longrightarrow> memcpy ?m1 (?d + 11) (key (heap x)) ! i = ?m1 ! i)"
      by (intro memcpy_frame) simp_all
    with f1 show ?thesis unfolding tok(3) by auto
  next
    case hdr
    with f1 show ?thesis by simp
  next
    case mac
    from n11 fit f1 have "?d + 11 + (?n - 11) \<le> length ?m1" by simp
    from encode_mac_frame [OF mac r this n32] n11 f1 show ?thesis by auto
  qed
  from fr conv show ?thesis by blast
qed


text \<open>When the encoder is given a target buffer and returns a count that is not negative,
  the message has its length, and every byte outside the option slice has the value it had
  before the call: \<^verbatim>\<open>hwopcount\<close> and \<^verbatim>\<open>giaddr\<close> of a DHCPv4 message are zero
  only while the digest is computed.\<close>

lemma encode_leaves_message:
  assumes "dhcp_auth_encode sys io rst heap a t m mp mt (Some data) dlen = (Inr r, m', rst')"
    and "0 \<le> r"
  shows "length m' = length m \<and>
    (\<forall>i<length m. int i < data \<or> data + int (unat dlen) \<le> int i \<longrightarrow> m' ! i = m ! i)"
proof -
  from assms(1) obtain t' where
    "encode_emit sys io rst heap a t' m mp mt data dlen = (Inr r, m', rst')"
    by (auto simp: dhcp_auth_encode_def split: sum.splits if_splits)
  from encode_emit_frame [OF this assms(2)] show ?thesis .
qed

lemma encode_leaves_message_example:
  "fst (dhcp_auth_encode ex_sys io_ok (rdm_start None) ex_heap2 ex_delayed (Some 2)
          (ex_message4 (replicate 31 0)) 4 3 (Some 240) 31) = Inr 0 \<and>
   fst (snd (dhcp_auth_encode ex_sys io_ok (rdm_start None) ex_heap2 ex_delayed (Some 2)
          (ex_message4 (replicate 31 0)) 4 3 (Some 240) 31)) ! 3 = 3 \<and>
   fst (snd (dhcp_auth_encode ex_sys io_ok (rdm_start None) ex_heap2 ex_delayed (Some 2)
          (ex_message4 (replicate 31 0)) 4 3 (Some 240) 31)) ! 24 = 10 \<and>
   fst (snd (dhcp_auth_encode ex_sys io_ok (rdm_start None) ex_heap2 ex_delayed (Some 2)
          (ex_message4 (replicate 31 0)) 4 3 (Some 240) 31)) ! 27 = 1"
proof -
  let ?m = "ex_message4 (replicate 31 0)"
  let ?E = "dhcp_auth_encode ex_sys io_ok (rdm_start None) ex_heap2 ex_delayed (Some 2) ?m 4 3 (Some 240) 31"
  have ok: "fst ?E = Inr 0" by code_simp
  then have E: "?E = (Inr 0, fst (snd ?E), snd (snd ?E))"
    by (metis prod.collapse)
  have m: "length ?m = 271" "?m ! 3 = 3" "?m ! 24 = 10" "?m ! 27 = 1"
    by code_simp+
  from encode_leaves_message [OF E]
  have fr: "\<forall>i<length ?m. int i < 240 \<or> 240 + int (unat (31 :: 32 word)) \<le> int i \<longrightarrow>
      fst (snd ?E) ! i = ?m ! i"
    by simp
  from fr [rule_format, of 3] fr [rule_format, of 24] fr [rule_format, of 27] m
  have "fst (snd ?E) ! 3 = 3" "fst (snd ?E) ! 24 = 10" "fst (snd ?E) ! 27 = 1"
    by simp_all
  with ok show ?thesis by (intro conjI)
qed

text \<open>
  C6. The claim: an emit-mode call of the encoder on a DHCPv4 message under a digest
  protocol leaves every byte outside the option slice as it was. The source tests the
  remaining length before it copies the key, the realm and the secret id, and not before
  \<^verbatim>\<open>memcpy(data, hmac, sizeof(hmac))\<close>. Under \<^verbatim>\<open>DELAYED_REALM\<close> with a realm of
  four bytes the size query asks for 35 bytes; with a slice of 29 bytes at offset 240 of
  a message of 277 bytes, ten bytes are left for the digest. The call sets no
  \<^verbatim>\<open>errno\<close> and returns -6, and the six bytes behind the slice, at 269 to 274, hold
  the end of the digest.
\<close>

theorem C6_digest_overruns_slice:
  "length ex_short = 277 \<and>
   take 8 (drop 269 ex_short) = [0xa1, 0xa2, 0xa3, 0xa4, 0xa5, 0xa6, 0xa7, 0xa8] \<and>
   fst (dhcp_auth_encode ex_sys io_ok (rdm_start None) ex_heap_realm ex_delayed_realm (Some 3)
          ex_short 4 3 None 0) = Inr 35 \<and>
   fst (dhcp_auth_encode ex_sys io_ok (rdm_start None) ex_heap_realm ex_delayed_realm (Some 3)
          ex_short 4 3 (Some 240) 29) = Inr (- 6) \<and>
   take 8 (drop 269 (fst (snd (dhcp_auth_encode ex_sys io_ok (rdm_start None) ex_heap_realm
          ex_delayed_realm (Some 3) ex_short 4 3 (Some 240) 29)))) =
     [0, 0, 0, 0, 0, 0, 0xa7, 0xa8]"
  by code_simp

theorem C6_bytes_behind_slice_changed:
  "fst (snd (dhcp_auth_encode ex_sys io_ok (rdm_start None) ex_heap_realm
          ex_delayed_realm (Some 3) ex_short 4 3 (Some 240) 29)) \<noteq> ex_short"
  using C6_digest_overruns_slice by auto

section \<open>The pinned token\<close>

text \<open>
  C7. With a token pinned, every call of the validator leaves the same token pinned; a call
  that returns a token returns the pinned one, unless it is the delivery of a reconfigure
  key, which returns the key stored in \<^verbatim>\<open>state.reconf\<close> and pins nothing; and the pin
  check at the label \<^verbatim>\<open>gottoken\<close> answers every other token with \<^verbatim>\<open>EPERM\<close>
  (denied), before any key or digest is compared.
\<close>

theorem C7_pinned_token_stays:
  assumes "token state = Some p"
  shows "token (fst (snd (dhcp_auth_validate sys heap state a m mp mt data dlen))) = Some p \<and>
    (\<forall>t. fst (dhcp_auth_validate sys heap state a m mp mt data dlen) = Inr t \<longrightarrow>
       t = p \<or> (m ! nat data = AUTH_PROTO_RECONFKEY \<and> m ! (nat data + 11) = 1 \<and>
                reconf (fst (snd (dhcp_auth_validate sys heap state a m mp mt data dlen))) = Some t)) \<and>
    (\<forall>t m' mp' proto alg rp d n. t \<noteq> p \<longrightarrow>
       gottoken sys heap state m' mp' proto alg rp t d n = (Inl EPERM, state, heap))"
proof (intro conjI allI impI)
  show "token (fst (snd (dhcp_auth_validate sys heap state a m mp mt data dlen))) = Some p"
    using assms validate_cases [of sys heap state a m mp mt data dlen]
      reconf_key_cases [of sys heap state m "nat data + 12"]
    by (auto simp: finish_def)
next
  fix t assume "fst (dhcp_auth_validate sys heap state a m mp mt data dlen) = Inr t"
  then show "t = p \<or> (m ! nat data = AUTH_PROTO_RECONFKEY \<and> m ! (nat data + 11) = 1 \<and>
                reconf (fst (snd (dhcp_auth_validate sys heap state a m mp mt data dlen))) = Some t)"
    using assms validate_cases [of sys heap state a m mp mt data dlen]
      reconf_key_cases [of sys heap state m "nat data + 12"]
    by (auto simp: finish_def)
next
  fix t m' mp' proto alg rp d n assume "t \<noteq> p"
  with assms show "gottoken sys heap state m' mp' proto alg rp t d n = (Inl EPERM, state, heap)"
    by (simp add: gottoken_def)
qed

theorem C7_pinned_token_witness:
  "fst (dhcp_auth_validate ex_sys ex_heap2 ex_fresh ex_delayed (ex_message6 ex_delayed_option) 6 7 8 31)
     = Inr 2 \<and>
   fst (dhcp_auth_validate ex_sys ex_heap2 (ex_pinned 0) ex_delayed (ex_message6 ex_delayed_option) 6 7 8 31)
     = Inl EPERM \<and>
   token (fst (snd (dhcp_auth_validate ex_sys ex_heap2 (ex_pinned 0) ex_delayed
     (ex_message6 ex_delayed_option) 6 7 8 31))) = Some 1"
proof -
  have p: "token (ex_pinned 0) = Some 1" by (simp add: ex_pinned_def)
  have a: "fst (dhcp_auth_validate ex_sys ex_heap2 ex_fresh ex_delayed
      (ex_message6 ex_delayed_option) 6 7 8 31) = Inr 2"
    by code_simp
  have b: "fst (dhcp_auth_validate ex_sys ex_heap2 (ex_pinned 0) ex_delayed
      (ex_message6 ex_delayed_option) 6 7 8 31) = Inl EPERM"
    by code_simp
  from C7_pinned_token_stays [OF p, of ex_sys ex_heap2 ex_delayed "ex_message6 ex_delayed_option" 6 7 8 31]
  have "token (fst (snd (dhcp_auth_validate ex_sys ex_heap2 (ex_pinned 0) ex_delayed
     (ex_message6 ex_delayed_option) 6 7 8 31))) = Some 1"
    by (rule conjunct1)
  with a b show ?thesis by (intro conjI)
qed

section \<open>The size of the option\<close>

text \<open>
  C8. For a policy the encoder accepts (protocol \<^verbatim>\<open>TOKEN\<close>, \<^verbatim>\<open>DELAYED\<close> or
  \<^verbatim>\<open>DELAYED_REALM\<close>, algorithm \<^verbatim>\<open>HMAC_MD5\<close>, replay method \<^verbatim>\<open>MONOTONIC\<close>) and a
  chosen token, the size query (no target buffer) returns 11 plus the key length, 4 + 16,
  or the realm length plus 4 + 16, and changes nothing. The sum is returned through an
  \<^verbatim>\<open>int\<close>, so it is the number itself whenever it is below \<open>2 ^ 31\<close>.
\<close>

theorem C8_size_query:
  assumes "protocol a = AUTH_PROTO_TOKEN \<or> protocol a = AUTH_PROTO_DELAYED \<or>
           protocol a = AUTH_PROTO_DELAYEDREALM"
    and "algorithm a = AUTH_ALG_HMAC_MD5" and "rdm a = AUTH_RDM_MONOTONIC"
  shows "dhcp_auth_encode sys io rst heap a (Some t) m mp mt None dlen =
           (Inr (to_int (spec_option_size a (heap t))), m, rst) \<and>
         (spec_option_size a (heap t) < 2 ^ 31 \<longrightarrow>
            to_int (spec_option_size a (heap t)) = int (spec_option_size a (heap t)))"
proof
  have distinct: "AUTH_PROTO_DELAYED \<noteq> AUTH_PROTO_TOKEN" "AUTH_PROTO_DELAYEDREALM \<noteq> AUTH_PROTO_TOKEN"
    "AUTH_PROTO_DELAYEDREALM \<noteq> AUTH_PROTO_DELAYED"
    by (simp_all add: AUTH_PROTO_TOKEN_def AUTH_PROTO_DELAYED_def AUTH_PROTO_DELAYEDREALM_def)
  from assms distinct
  show "dhcp_auth_encode sys io rst heap a (Some t) m mp mt None dlen =
      (Inr (to_int (spec_option_size a (heap t))), m, rst)"
    by (auto simp: dhcp_auth_encode_def encode_token_def auth_size_def spec_option_size_def
        to_int_def HMAC_LENGTH_def)
  show "spec_option_size a (heap t) < 2 ^ 31 \<longrightarrow>
      to_int (spec_option_size a (heap t)) = int (spec_option_size a (heap t))"
    by (simp add: to_int_small)
qed


theorem C8_size_query_witness:
  "dhcp_auth_encode ex_sys io_ok (rdm_start None) ex_heap ex_policy (Some 1) [] 4 DHCP_DISCOVER None 0
     = (Inr 16, [], rdm_start None)"
proof -
  have a: "protocol ex_policy = AUTH_PROTO_TOKEN \<or> protocol ex_policy = AUTH_PROTO_DELAYED \<or>
      protocol ex_policy = AUTH_PROTO_DELAYEDREALM"
    and b: "algorithm ex_policy = AUTH_ALG_HMAC_MD5" and c: "rdm ex_policy = AUTH_RDM_MONOTONIC"
    by (simp_all add: ex_policy_def)
  have s: "spec_option_size ex_policy (ex_heap 1) = 16"
    by code_simp
  from C8_size_query [OF a b c, of ex_sys io_ok "rdm_start None" ex_heap 1 "[]" 4 DHCP_DISCOVER 0]
  show ?thesis unfolding s by simp
qed

section \<open>The reconfigure key protocol\<close>

text \<open>
  C9. When the validator reaches the protocol switch with the protocol
  \<^verbatim>\<open>RECONF_KEY\<close>: a payload after header and replay value that is not 1 + 16 bytes long
  is malformed (\<^verbatim>\<open>EINVAL\<close>); a type byte other than 1 and 2 is malformed; type 1 is
  malformed unless the message is a DHCPv4 ACK or a DHCPv6 REPLY; and type 2 is an error
  (\<^verbatim>\<open>ENOENT\<close>) when the session holds no reconfigure key.
\<close>

theorem C9_reconf_key_errors:
  assumes hdr: "passes_header state a m data dlen"
    and proto: "m ! nat data = AUTH_PROTO_RECONFKEY"
  shows "(unat dlen \<noteq> 11 + (1 + 16) \<longrightarrow>
            fst (dhcp_auth_validate sys heap state a m mp mt data dlen) = Inl EINVAL) \<and>
         (m ! (nat data + 11) \<noteq> 1 \<and> m ! (nat data + 11) \<noteq> 2 \<longrightarrow>
            fst (dhcp_auth_validate sys heap state a m mp mt data dlen) = Inl EINVAL) \<and>
         (m ! (nat data + 11) = 1 \<and> \<not> ((mp = 4 \<and> mt = DHCP_ACK) \<or> (mp = 6 \<and> mt = DHCP6_REPLY)) \<longrightarrow>
            fst (dhcp_auth_validate sys heap state a m mp mt data dlen) = Inl EINVAL) \<and>
         (unat dlen = 11 + (1 + 16) \<and> m ! (nat data + 11) = 2 \<and> reconf state = None \<longrightarrow>
            fst (dhcp_auth_validate sys heap state a m mp mt data dlen) = Inl ENOENT)"
proof -
  have distinct: "AUTH_PROTO_RECONFKEY \<noteq> AUTH_PROTO_TOKEN" "AUTH_PROTO_RECONFKEY \<noteq> AUTH_PROTO_DELAYED"
    "AUTH_PROTO_RECONFKEY \<noteq> AUTH_PROTO_DELAYEDREALM"
    by (simp_all add: AUTH_PROTO_TOKEN_def AUTH_PROTO_DELAYED_def AUTH_PROTO_DELAYEDREALM_def
        AUTH_PROTO_RECONFKEY_def)
  from hdr have len: "11 \<le> unat dlen" by (simp add: passes_header_def)
  then have l17: "unat dlen - 11 = 17 \<longleftrightarrow> unat dlen = 28" by arith
  show ?thesis
    unfolding validate_header [OF hdr] proto
    by (simp add: validate_protocol_def distinct Let_def l17)
qed

theorem C9_reconf_key_witness:
  "fst (dhcp_auth_validate ex_sys ex_heap ex_fresh ex_no_send (ex_message4 (ex_reconf_option 1)) 4 2 240 28)
     = Inl EINVAL \<and>
   fst (dhcp_auth_validate ex_sys ex_heap ex_fresh ex_no_send (ex_message6 (ex_reconf_option 1)) 6 7 8 27)
     = Inl EINVAL \<and>
   fst (dhcp_auth_validate ex_sys ex_heap ex_fresh ex_no_send (ex_message6 (ex_reconf_option 3)) 6 7 8 28)
     = Inl EINVAL \<and>
   fst (dhcp_auth_validate ex_sys ex_heap ex_fresh ex_no_send (ex_message6 (ex_reconf_option 2)) 6 7 8 28)
     = Inl ENOENT"
proof -
  have h4: "passes_header ex_fresh ex_no_send (ex_message4 (ex_reconf_option 1)) 240 28"
    and p4: "ex_message4 (ex_reconf_option 1) ! nat 240 = AUTH_PROTO_RECONFKEY"
    and t4: "ex_message4 (ex_reconf_option 1) ! (nat 240 + 11) = 1 \<and>
      \<not> (((4::int) = 4 \<and> (2::int) = DHCP_ACK) \<or> ((4::int) = 6 \<and> (2::int) = DHCP6_REPLY))"
    by code_simp+
  have h1: "passes_header ex_fresh ex_no_send (ex_message6 (ex_reconf_option 1)) 8 27"
    and p1: "ex_message6 (ex_reconf_option 1) ! nat 8 = AUTH_PROTO_RECONFKEY"
    and t1: "unat (27 :: 32 word) \<noteq> 11 + (1 + 16)"
    by code_simp+
  have h3: "passes_header ex_fresh ex_no_send (ex_message6 (ex_reconf_option 3)) 8 28"
    and p3: "ex_message6 (ex_reconf_option 3) ! nat 8 = AUTH_PROTO_RECONFKEY"
    and t3: "ex_message6 (ex_reconf_option 3) ! (nat 8 + 11) \<noteq> 1 \<and>
      ex_message6 (ex_reconf_option 3) ! (nat 8 + 11) \<noteq> 2"
    by code_simp+
  have h2: "passes_header ex_fresh ex_no_send (ex_message6 (ex_reconf_option 2)) 8 28"
    and p2: "ex_message6 (ex_reconf_option 2) ! nat 8 = AUTH_PROTO_RECONFKEY"
    and t2: "unat (28 :: 32 word) = 11 + (1 + 16) \<and> ex_message6 (ex_reconf_option 2) ! (nat 8 + 11) = 2 \<and>
      reconf ex_fresh = None"
    by code_simp+
  note c4 = C9_reconf_key_errors [OF h4 p4, of ex_sys ex_heap 4 2]
  note c1 = C9_reconf_key_errors [OF h1 p1, of ex_sys ex_heap 6 7]
  note c3 = C9_reconf_key_errors [OF h3 p3, of ex_sys ex_heap 6 7]
  note c2 = C9_reconf_key_errors [OF h2 p2, of ex_sys ex_heap 6 7]
  from c4 [THEN conjunct2, THEN conjunct2, THEN conjunct1, THEN mp, OF t4]
    c1 [THEN conjunct1, THEN mp, OF t1]
    c3 [THEN conjunct2, THEN conjunct1, THEN mp, OF t3]
    c2 [THEN conjunct2, THEN conjunct2, THEN conjunct2, THEN mp, OF t2]
  show ?thesis by (intro conjI)
qed

text \<open>
  C10. A successful delivery of a reconfigure key (type 1) leaves \<^verbatim>\<open>state.token\<close> and
  \<^verbatim>\<open>state.replay\<close> as they were, and \<^verbatim>\<open>state.reconf\<close> is the token returned: its
  secret id is 0, its realm is empty and its key is the 16 bytes of the message. No other
  stored token changes. A reconfigure key that the session already holds is taken to be
  one that an earlier delivery stored (secret id 0, no realm, 16 bytes).
\<close>

theorem C10_key_delivery_sets_only_reconf:
  assumes ok: "fst (dhcp_auth_validate sys heap state a m mp mt data dlen) = Inr r"
    and proto: "m ! nat data = AUTH_PROTO_RECONFKEY"
    and type: "m ! (nat data + 11) = 1"
    and inv: "\<forall>x. reconf state = Some x \<longrightarrow>
        secretid (heap x) = 0 \<and> realm (heap x) = [] \<and> length (key (heap x)) = 16"
  shows "token (fst (snd (dhcp_auth_validate sys heap state a m mp mt data dlen))) = token state \<and>
    replay (fst (snd (dhcp_auth_validate sys heap state a m mp mt data dlen))) = replay state \<and>
    reconf (fst (snd (dhcp_auth_validate sys heap state a m mp mt data dlen))) = Some r \<and>
    secretid (snd (snd (dhcp_auth_validate sys heap state a m mp mt data dlen)) r) = 0 \<and>
    realm (snd (snd (dhcp_auth_validate sys heap state a m mp mt data dlen)) r) = [] \<and>
    key (snd (snd (dhcp_auth_validate sys heap state a m mp mt data dlen)) r) =
      take 16 (drop (nat data + 12) m) \<and>
    length (key (snd (snd (dhcp_auth_validate sys heap state a m mp mt data dlen)) r)) = 16 \<and>
    (\<forall>x. x \<noteq> r \<longrightarrow> snd (snd (dhcp_auth_validate sys heap state a m mp mt data dlen)) x = heap x)"
proof -
  let ?V = "dhcp_auth_validate sys heap state a m mp mt data dlen"
  from validate_cases [of sys heap state a m mp mt data dlen] ok proto type
  have V: "?V = reconf_key sys heap state m (nat data + 12)"
    and hdr: "passes_header state a m data dlen" and len: "unat dlen = 28"
    by (auto simp: finish_def)
  from hdr len have "nat data + 28 \<le> length m"
    by (simp add: passes_header_def) linarith
  then have l16: "length (take 16 (drop (nat data + 12) m)) = 16" by simp
  from reconf_key_cases [of sys heap state m "nat data + 12"] ok inv l16 show ?thesis
    unfolding V by (auto simp: memcpy_def)
qed

theorem C10_key_delivery_witness:
  "fst (dhcp_auth_validate ex_sys ex_heap ex_fresh ex_no_send (ex_message4 (ex_reconf_option 1)) 4 DHCP_ACK 240 28)
     = Inr 9 \<and>
   fst (snd (dhcp_auth_validate ex_sys ex_heap ex_fresh ex_no_send (ex_message4 (ex_reconf_option 1)) 4 DHCP_ACK 240 28))
     = \<lparr>replay = 0, token = None, reconf = Some 9\<rparr> \<and>
   snd (snd (dhcp_auth_validate ex_sys ex_heap ex_fresh ex_no_send (ex_message4 (ex_reconf_option 1)) 4 DHCP_ACK 240 28)) 9
     = \<lparr>secretid = 0, realm = [], key = [1, 2, 3, 4, 5, 6, 7, 8, 9, 10, 11, 12, 13, 14, 15, 16], expire = 0\<rparr>"
proof -
  let ?V = "dhcp_auth_validate ex_sys ex_heap ex_fresh ex_no_send (ex_message4 (ex_reconf_option 1)) 4 DHCP_ACK 240 28"
  have ok: "fst ?V = Inr 9" by code_simp
  have p: "ex_message4 (ex_reconf_option 1) ! nat 240 = AUTH_PROTO_RECONFKEY"
    and t: "ex_message4 (ex_reconf_option 1) ! (nat 240 + 11) = 1"
    by code_simp+
  have inv: "\<forall>x. reconf ex_fresh = Some x \<longrightarrow>
        secretid (ex_heap x) = 0 \<and> realm (ex_heap x) = [] \<and> length (key (ex_heap x)) = 16"
    by (simp add: ex_fresh_def)
  have k: "take 16 (drop (nat 240 + 12) (ex_message4 (ex_reconf_option 1))) =
      [1, 2, 3, 4, 5, 6, 7, 8, 9, 10, 11, 12, 13, 14, 15, 16]"
    by code_simp
  have e: "expire (snd (snd ?V) 9) = 0" by code_simp
  from C10_key_delivery_sets_only_reconf [OF ok p t inv]
  have "token (fst (snd ?V)) = token ex_fresh" "replay (fst (snd ?V)) = replay ex_fresh"
    "reconf (fst (snd ?V)) = Some 9" "secretid (snd (snd ?V) 9) = 0" "realm (snd (snd ?V) 9) = []"
    "key (snd (snd ?V) 9) = take 16 (drop (nat 240 + 12) (ex_message4 (ex_reconf_option 1)))"
    by blast+
  with ok e k show ?thesis
    by (cases "fst (snd ?V)"; cases "snd (snd ?V) 9") (simp add: ex_fresh_def)
qed

end
